theory Spec2Isabelle
  imports
    Main
    "HOL-Library.Sublist"
    "HOL-Library.Char_ord"
    "HOL-Library.List_Lexorder"
begin

section \<open>Strings, JSON values and errors\<close>

text \<open>
  The generator \<^verbatim>\<open>tools/build.py\<close> reads recipe records from JSON files and writes one
  HTML page per record plus an index page.

  A Python \<^verbatim>\<open>str\<close> is represented by its UTF-8 encoding, a \<^typ>\<open>string\<close> of bytes. Every
  library routine used by the script either works on the UTF-8 bytes anyway
  (\<^verbatim>\<open>urllib.parse.quote\<close>, \<^verbatim>\<open>write_text(encoding="utf-8")\<close>) or looks only for ASCII
  characters and a few fixed code points (\<^verbatim>\<open>html.escape\<close>, the string escaping of
  \<^verbatim>\<open>json.dumps\<close>, \<^verbatim>\<open>str.splitlines\<close>), which UTF-8 keeps recognisable. A Python string
  that cannot be encoded (a lone surrogate) has no representation here.
\<close>

text \<open>Python's \<^verbatim>\<open>sep.join(parts)\<close>.\<close>

fun join :: "string \<Rightarrow> string list \<Rightarrow> string" where
  "join sep [] = []"
| "join sep [x] = x"
| "join sep (x # y # ys) = x @ sep @ join sep (y # ys)"

text \<open>
  The values \<^verbatim>\<open>json.loads\<close> returns and \<^verbatim>\<open>json.dumps\<close> accepts. A dictionary keeps its
  insertion order. A number is held by the text \<^verbatim>\<open>json.dumps\<close> prints for it; the script
  never computes with one.
\<close>

datatype json =
    JNull
  | JBool bool
  | JNum string
  | JStr string
  | JArr "json list"
  | JObj "(string \<times> json) list"

text \<open>
  The exceptions of a run. \<open>DecodeError\<close> stands for a file that is not UTF-8 text or
  not JSON (\<^verbatim>\<open>read_text\<close> or \<^verbatim>\<open>json.loads\<close> raises). \<open>OutOfModel\<close> marks the inputs
  this development does not follow: a record whose fields do not have the types of the data
  model, or whose slug is not a single plain path component.
\<close>

datatype error =
    ValueError string
  | TypeError
  | DecodeError
  | FileExistsError
  | FileNotFoundError
  | NotADirectoryError
  | IsADirectoryError
  | OutOfModel

section \<open>The loader\<close>

text \<open>
  \<^verbatim>\<open>key in data\<close>: key membership for a dictionary, element membership for a list, the
  substring test for a string, and a \<^verbatim>\<open>TypeError\<close> for \<^verbatim>\<open>None\<close>, booleans and numbers.
\<close>

fun py_in :: "string \<Rightarrow> json \<Rightarrow> error + bool" where
  "py_in key (JObj kvs) = Inr (key \<in> set (map fst kvs))"
| "py_in key (JArr xs) = Inr (JStr key \<in> set xs)"
| "py_in key (JStr s) = Inr (sublist key s)"
| "py_in key JNull = Inl TypeError"
| "py_in key (JBool b) = Inl TypeError"
| "py_in key (JNum n) = Inl TypeError"

definition required_keys :: "string list" where
  "required_keys = [''slug'', ''name'', ''ingredients'', ''instructions'']"

definition missing_msg :: "string \<Rightarrow> string \<Rightarrow> string" where
  "missing_msg p key = p @ '': missing '' @ [CHR 0x27] @ key @ [CHR 0x27]"

text \<open>The inner loop of \<^verbatim>\<open>load_recipes\<close>: the first key that is not in the data raises.\<close>

fun check_keys :: "string \<Rightarrow> json \<Rightarrow> string list \<Rightarrow> error option" where
  "check_keys p data [] = None"
| "check_keys p data (key # keys) =
     (case py_in key data of
        Inl e \<Rightarrow> Some e
      | Inr False \<Rightarrow> Some (ValueError (missing_msg p key))
      | Inr True \<Rightarrow> check_keys p data keys)"

text \<open>
  A recipe file is its path, as \<^verbatim>\<open>str(p)\<close> prints it, and what reading and parsing it gives:
  \<open>None\<close> when that raises. The outer loop appends each checked record to \<open>out\<close>.
\<close>

type_synonym recipe_file = "string \<times> json option"

fun load_loop :: "recipe_file list \<Rightarrow> json list \<Rightarrow> error + json list" where
  "load_loop [] out = Inr out"
| "load_loop ((p, None) # ps) out = Inl DecodeError"
| "load_loop ((p, Some data) # ps) out =
     (case check_keys p data required_keys of
        Some e \<Rightarrow> Inl e
      | None \<Rightarrow> load_loop ps (out @ [data]))"

text \<open>
  \<^verbatim>\<open>load_recipes\<close> takes the files that \<^verbatim>\<open>RECIPES_DIR.glob("*.json")\<close> finds, in any
  order, and visits them sorted by path.
\<close>

definition load_recipes :: "recipe_file list \<Rightarrow> error + json list" where
  "load_recipes files = load_loop (sort_key fst files) []"

section \<open>Records of the data model\<close>

text \<open>
  The fields \<^verbatim>\<open>build_recipe_page\<close> reads, with the types of the data model. An optional
  field is \<open>None\<close> when \<^verbatim>\<open>r.get(key)\<close> is \<^verbatim>\<open>None\<close>: the key is absent or holds
  \<^verbatim>\<open>null\<close>.
\<close>

record recipe =
  slug :: string
  name :: string
  ingredients :: "string list"
  instructions :: "string list"
  yield :: "string option"
  time :: "string option"
  image_file :: "string option"

fun get_str :: "json option \<Rightarrow> string option" where
  "get_str (Some (JStr s)) = Some s"
| "get_str _ = None"

fun as_str :: "json \<Rightarrow> string option" where
  "as_str (JStr s) = Some s"
| "as_str _ = None"

fun get_strs :: "json option \<Rightarrow> string list option" where
  "get_strs (Some (JArr xs)) = those (map as_str xs)"
| "get_strs _ = None"

fun get_opt_str :: "json option \<Rightarrow> string option option" where
  "get_opt_str None = Some None"
| "get_opt_str (Some JNull) = Some None"
| "get_opt_str (Some (JStr s)) = Some (Some s)"
| "get_opt_str _ = None"

fun recipe_of :: "json \<Rightarrow> recipe option" where
  "recipe_of (JObj d) =
     (case (get_str (map_of d ''slug''), get_str (map_of d ''name''),
            get_strs (map_of d ''ingredients''), get_strs (map_of d ''instructions''),
            get_opt_str (map_of d ''yield''), get_opt_str (map_of d ''time''),
            get_opt_str (map_of d ''image_file'')) of
        (Some s, Some n, Some ings, Some ins, Some y, Some t, Some i) \<Rightarrow>
          Some \<lparr>slug = s, name = n, ingredients = ings, instructions = ins,
                yield = y, time = t, image_file = i\<rparr>
      | _ \<Rightarrow> None)"
| "recipe_of _ = None"

text \<open>Truthiness of \<^verbatim>\<open>r.get(key)\<close> for an optional string: present and not empty.\<close>

fun truthy :: "string option \<Rightarrow> bool" where
  "truthy None = False"
| "truthy (Some s) = (s \<noteq> [])"

section \<open>Library routines\<close>

text \<open>
  \<^verbatim>\<open>str.replace\<close> for a pattern of one character, and \<^verbatim>\<open>html.escape\<close> (with its default
  \<^verbatim>\<open>quote=True\<close>) as the library writes it: five replacements, the ampersand first.
\<close>

definition replace_char :: "char \<Rightarrow> string \<Rightarrow> string \<Rightarrow> string" where
  "replace_char c rep s = concat (map (\<lambda>x. if x = c then rep else [x]) s)"

definition escape :: "string \<Rightarrow> string" where
  "escape s =
     replace_char (CHR 0x27) ''&#x27;''
       (replace_char (CHR 0x22) ''&quot;''
         (replace_char (CHR ''>'') ''&gt;''
           (replace_char (CHR ''<'') ''&lt;''
             (replace_char (CHR ''&'') ''&amp;'' s))))"

text \<open>
  \<^verbatim>\<open>urllib.parse.quote(s, safe="")\<close>: the UTF-8 bytes of \<open>s\<close>, every byte outside letters,
  digits and \<^verbatim>\<open>_.-~\<close> written as \<^verbatim>\<open>%XX\<close> with upper-case hexadecimal digits.
\<close>

definition always_safe :: "char \<Rightarrow> bool" where
  "always_safe c =
     (let n = (of_char c :: nat)
      in (65 \<le> n \<and> n \<le> 90) \<or> (97 \<le> n \<and> n \<le> 122) \<or> (48 \<le> n \<and> n \<le> 57)
         \<or> c = CHR ''_'' \<or> c = CHR ''.'' \<or> c = CHR ''-'' \<or> c = CHR ''~'')"

definition upper_hex :: "nat \<Rightarrow> char" where
  "upper_hex n = (if n < 10 then char_of (48 + n) else char_of (55 + n))"

definition lower_hex :: "nat \<Rightarrow> char" where
  "lower_hex n = (if n < 10 then char_of (48 + n) else char_of (87 + n))"

definition quote_byte :: "char \<Rightarrow> string" where
  "quote_byte c =
     (if always_safe c then [c]
      else [CHR ''%'', upper_hex (of_char c div 16), upper_hex (of_char c mod 16)])"

definition quote :: "string \<Rightarrow> string" where
  "quote s = concat (map quote_byte s)"

text \<open>
  \<^verbatim>\<open>json.dumps(obj, ensure_ascii=False, indent=2)\<close>. A string is escaped at the double
  quote, the backslash and the control characters below \<^verbatim>\<open>0x20\<close> only; items are
  separated by a comma and a new line indented by two spaces per nesting level.
\<close>

definition json_escape_char :: "char \<Rightarrow> string" where
  "json_escape_char c =
     (if c = CHR 0x22 then [CHR 0x5C, CHR 0x22]
      else if c = CHR 0x5C then [CHR 0x5C, CHR 0x5C]
      else if c = CHR 0x0A then [CHR 0x5C, CHR ''n'']
      else if c = CHR 0x0D then [CHR 0x5C, CHR ''r'']
      else if c = CHR 0x09 then [CHR 0x5C, CHR ''t'']
      else if c = CHR 0x08 then [CHR 0x5C, CHR ''b'']
      else if c = CHR 0x0C then [CHR 0x5C, CHR ''f'']
      else if (of_char c :: nat) < 32 then
        [CHR 0x5C, CHR ''u'', CHR ''0'', CHR ''0'',
         lower_hex (of_char c div 16), lower_hex (of_char c mod 16)]
      else [c])"

definition encode_basestring :: "string \<Rightarrow> string" where
  "encode_basestring s = [CHR 0x22] @ concat (map json_escape_char s) @ [CHR 0x22]"

definition newline_indent :: "nat \<Rightarrow> string" where
  "newline_indent lvl = [CHR 0x0A] @ replicate (2 * lvl) (CHR '' '')"

fun dumps :: "nat \<Rightarrow> json \<Rightarrow> string" where
  "dumps lvl JNull = ''null''"
| "dumps lvl (JBool b) = (if b then ''true'' else ''false'')"
| "dumps lvl (JNum n) = n"
| "dumps lvl (JStr s) = encode_basestring s"
| "dumps lvl (JArr xs) =
     (if xs = [] then ''[]''
      else ''['' @ newline_indent (lvl + 1)
           @ join ('','' @ newline_indent (lvl + 1)) (map (dumps (lvl + 1)) xs)
           @ newline_indent lvl @ '']'')"
| "dumps lvl (JObj kvs) =
     (if kvs = [] then ''{}''
      else ''{'' @ newline_indent (lvl + 1)
           @ join ('','' @ newline_indent (lvl + 1))
               (map (\<lambda>kv. encode_basestring (fst kv) @ '': '' @ dumps (lvl + 1) (snd kv)) kvs)
           @ newline_indent lvl @ ''}'')"

text \<open>
  \<^verbatim>\<open>str.splitlines()\<close> on the UTF-8 bytes. A line ends at \<^verbatim>\<open>\n\<close>, \<^verbatim>\<open>\r\<close>, \<^verbatim>\<open>\r\n\<close>,
  \<^verbatim>\<open>\v\<close>, \<^verbatim>\<open>\f\<close>, \<^verbatim>\<open>\x1c\<close>, \<^verbatim>\<open>\x1d\<close>, \<^verbatim>\<open>\x1e\<close>, at U+0085 (bytes C2 85) and at
  U+2028 and U+2029 (bytes E2 80 A8 and E2 80 A9); the line ends are dropped and a final
  empty line is not returned. \<open>cur\<close> is the line read so far.
\<close>

function splitlines_from :: "string \<Rightarrow> string \<Rightarrow> string list" where
  "splitlines_from cur [] = (if cur = [] then [] else [cur])"
| "splitlines_from cur (c # s) =
     (if c = CHR 0x0D \<and> take 1 s = [CHR 0x0A] then cur # splitlines_from [] (drop 1 s)
      else if c \<in> set [CHR 0x0A, CHR 0x0D, CHR 0x0B, CHR 0x0C, CHR 0x1C, CHR 0x1D, CHR 0x1E]
        then cur # splitlines_from [] s
      else if c = CHR 0xC2 \<and> take 1 s = [CHR 0x85] then cur # splitlines_from [] (drop 1 s)
      else if c = CHR 0xE2 \<and> (take 2 s = [CHR 0x80, CHR 0xA8] \<or> take 2 s = [CHR 0x80, CHR 0xA9])
        then cur # splitlines_from [] (drop 2 s)
      else splitlines_from (cur @ [c]) s)"
  by pat_completeness auto
termination
  by (relation "measure (\<lambda>(cur, s). length s)") auto

definition splitlines :: "string \<Rightarrow> string list" where
  "splitlines s = splitlines_from [] s"

section \<open>Rendering a recipe page\<close>

definition REPO_PAGES_BASE :: string where
  "REPO_PAGES_BASE = ''https://Sabsx.github.io/bring-recipes''"

definition ASSETS_IMAGES :: string where
  "ASSETS_IMAGES = ''assets/images''"

text \<open>
  The characters of the script beyond ASCII, as their UTF-8 bytes: the plate with cutlery
  (U+1F37D U+FE0F), the stopwatch (U+23F1 U+FE0F), the bullet (U+2022), the shopping cart
  (U+1F6D2), the arrow to the left (U+2190), the receipt (U+1F9FE), the cook (U+1F468 U+200D
  U+1F373), the books (U+1F4DA), the letters u and O with diaeresis, and the low and
  high double quotation marks (U+201E, U+201C).
\<close>

definition plate :: string where
  "plate = [CHR 0xF0, CHR 0x9F, CHR 0x8D, CHR 0xBD, CHR 0xEF, CHR 0xB8, CHR 0x8F]"

definition stopwatch :: string where
  "stopwatch = [CHR 0xE2, CHR 0x8F, CHR 0xB1, CHR 0xEF, CHR 0xB8, CHR 0x8F]"

definition bullet :: string where
  "bullet = [CHR 0xE2, CHR 0x80, CHR 0xA2]"

definition cart :: string where
  "cart = [CHR 0xF0, CHR 0x9F, CHR 0x9B, CHR 0x92]"

definition larrow :: string where
  "larrow = [CHR 0xE2, CHR 0x86, CHR 0x90]"

definition receipt :: string where
  "receipt = [CHR 0xF0, CHR 0x9F, CHR 0xA7, CHR 0xBE]"

definition cook :: string where
  "cook = [CHR 0xF0, CHR 0x9F, CHR 0x91, CHR 0xA8, CHR 0xE2, CHR 0x80, CHR 0x8D,
           CHR 0xF0, CHR 0x9F, CHR 0x8D, CHR 0xB3]"

definition books :: string where
  "books = [CHR 0xF0, CHR 0x9F, CHR 0x93, CHR 0x9A]"

definition uuml :: string where
  "uuml = [CHR 0xC3, CHR 0xBC]"

definition Ouml :: string where
  "Ouml = [CHR 0xC3, CHR 0x96]"

definition lowquote :: string where
  "lowquote = [CHR 0xE2, CHR 0x80, CHR 0x9E]"

definition highquote :: string where
  "highquote = [CHR 0xE2, CHR 0x80, CHR 0x9C]"

text \<open>
  A template is the list of its lines, each ended by a new line, with the values of
  \<^verbatim>\<open>str.format\<close> put where the template names them.
\<close>

definition unlines :: "string list \<Rightarrow> string" where
  "unlines ls = concat (map (\<lambda>l. l @ [CHR 0x0A]) ls)"

definition HTML_TEMPLATE ::
  "string \<Rightarrow> string \<Rightarrow> string \<Rightarrow> string \<Rightarrow> string \<Rightarrow> string \<Rightarrow> string \<Rightarrow> string \<Rightarrow> string" where
  \<open>HTML_TEMPLATE title desc meta hero_img jsonld ingredients_html instructions_html bring_link =
     unlines
      [''<!doctype html>'',
       ''<html lang="de">'',
       ''<head>'',
       ''  <meta charset="utf-8" />'',
       ''  <meta name="viewport" content="width=device-width,initial-scale=1" />'',
       ''  <title>'' @ title @ ''</title>'',
       ''  <meta name="description" content="'' @ desc @ ''">'',
       ''  <link rel="stylesheet" href="../assets/style.css" />'',
       [],
       ''  <script type="application/ld+json">'',
       jsonld,
       ''  </script>'',
       ''</head>'',
       ''<body>'',
       ''  <main class="wrap">'',
       ''    <h1>'' @ title @ ''</h1>'',
       ''    <div class="sub">'' @ meta @ ''</div>'',
       [],
       ''  <div class="btnrow">'',
       ''    <a class="btn" href="'' @ bring_link @ ''">'' @ cart @ '' In Bring! importieren</a>'',
       ''    <a class="btn" href="../">'' @ larrow @ '' zur'' @ uuml @ ''ck</a>'',
       ''  </div>'',
       [],
       ''    '' @ hero_img,
       [],
       ''    <section class="grid">'',
       ''      <article class="card">'',
       ''        <div class="hd">'' @ receipt @ '' Zutaten</div>'',
       ''        <div class="bd">'',
       ''          <ul>'',
       ingredients_html,
       ''          </ul>'',
       ''        </div>'',
       ''      </article>'',
       [],
       ''      <article class="card">'',
       ''        <div class="hd">'' @ cook @ '' Zubereitung</div>'',
       ''        <div class="bd">'',
       ''          <ol>'',
       instructions_html,
       ''          </ol>'',
       ''        </div>'',
       ''      </article>'',
       ''    </section>'',
       [],
       ''    <footer>'',
       ''      <a class="btn" href="../">'' @ larrow @ '' zur'' @ uuml @ ''ck</a>'',
       ''    </footer>'',
       ''  </main>'',
       ''</body>'',
       ''</html>'']\<close>

definition INDEX_TEMPLATE :: "string \<Rightarrow> string" where
  \<open>INDEX_TEMPLATE links_html =
     unlines
      [''<!doctype html>'',
       ''<html lang="de">'',
       ''<head>'',
       ''  <meta charset="utf-8" />'',
       ''  <meta name="viewport" content="width=device-width,initial-scale=1" />'',
       ''  <title>Rezepte</title>'',
       ''  <link rel="stylesheet" href="./assets/style.css" />'',
       ''</head>'',
       ''<body>'',
       ''  <main class="wrap">'',
       ''    <h1>Rezepte</h1>'',
       ''    <div class="sub">Private Rezeptseiten f'' @ uuml @ ''r Bring!-Import</div>'',
       [],
       ''    <section class="card">'',
       ''      <div class="hd">'' @ books @ '' Liste</div>'',
       ''      <div class="bd">'',
       ''        <ul>'',
       links_html,
       ''        </ul>'',
       ''      </div>'',
       ''    </section>'',
       [],
       ''    <footer>'',
       ''      <span class="muted">Tipp:</span> '' @ Ouml @ ''ffne ein Rezept und tippe auf <strong>''
         @ lowquote @ ''In Bring! importieren'' @ highquote @ ''</strong>.'',
       ''    </footer>'',
       ''  </main>'',
       ''</body>'',
       ''</html>'']\<close>

text \<open>\<^verbatim>\<open>clean_none\<close> keeps the entries whose value is neither \<^verbatim>\<open>None\<close> nor the empty string.\<close>

definition clean_none :: "(string \<times> json) list \<Rightarrow> (string \<times> json) list" where
  "clean_none d = filter (\<lambda>kv. snd kv \<noteq> JNull \<and> snd kv \<noteq> JStr []) d"

text \<open>The parts of \<^verbatim>\<open>build_recipe_page\<close>, in the order the function computes them.\<close>

definition desc :: "recipe \<Rightarrow> string" where
  "desc r = ''Privates Rezept: '' @ name r"

definition recipe_url :: "recipe \<Rightarrow> string" where
  "recipe_url r = REPO_PAGES_BASE @ ''/'' @ slug r @ ''/''"

definition bring_link :: "recipe \<Rightarrow> string" where
  "bring_link r =
     ''https://api.getbring.com/rest/bringrecipes/deeplink''
     @ ''?url='' @ quote (recipe_url r) @ ''&source=web''"

definition image_url :: "recipe \<Rightarrow> string option" where
  "image_url r =
     (if truthy (image_file r)
      then Some (REPO_PAGES_BASE @ ''/'' @ ASSETS_IMAGES @ ''/'' @ the (image_file r))
      else None)"

fun opt_json :: "string option \<Rightarrow> json" where
  "opt_json None = JNull"
| "opt_json (Some s) = JStr s"

definition jsonld_obj :: "recipe \<Rightarrow> (string \<times> json) list" where
  "jsonld_obj r =
     clean_none
      [(''@context'', JStr ''https://schema.org''),
       (''@type'', JStr ''Recipe''),
       (''name'', JStr (name r)),
       (''image'', if truthy (image_url r) then opt_json (image_url r) else JNull),
       (''recipeYield'', opt_json (yield r)),
       (''recipeIngredient'', JArr (map JStr (ingredients r))),
       (''recipeInstructions'',
          JArr (map (\<lambda>t. JObj [(''@type'', JStr ''HowToStep''), (''text'', JStr t)])
                 (instructions r)))]"

definition jsonld :: "recipe \<Rightarrow> string" where
  "jsonld r =
     join [CHR 0x0A] (map (\<lambda>line. ''  '' @ line) (splitlines (dumps 0 (JObj (jsonld_obj r)))))"

definition li :: "string \<Rightarrow> string" where
  "li x = ''            <li>'' @ escape x @ ''</li>''"

definition ingredients_html :: "recipe \<Rightarrow> string" where
  "ingredients_html r = join [CHR 0x0A] (map li (ingredients r))"

definition instructions_html :: "recipe \<Rightarrow> string" where
  "instructions_html r = join [CHR 0x0A] (map li (instructions r))"

definition meta_parts :: "recipe \<Rightarrow> string list" where
  "meta_parts r =
     (if truthy (yield r) then [plate @ '' '' @ the (yield r)] else [])
     @ (if truthy (time r) then [stopwatch @ '' '' @ the (time r)] else [])"

definition meta :: "recipe \<Rightarrow> string" where
  "meta r =
     (if meta_parts r \<noteq> [] then join ('' '' @ bullet @ '' '') (meta_parts r)
      else ''Bring!-Import kompatibel'')"

definition hero_img :: "recipe \<Rightarrow> string" where
  \<open>hero_img r =
     (if truthy (image_file r)
      then ''<img class="hero" src="../'' @ ASSETS_IMAGES @ ''/'' @ escape (the (image_file r))
           @ ''" alt="'' @ escape (name r) @ ''" />''
      else [])\<close>

definition page_html :: "recipe \<Rightarrow> string" where
  "page_html r =
     HTML_TEMPLATE (escape (name r)) (escape (desc r)) (escape (meta r)) (hero_img r) (jsonld r)
       (ingredients_html r) (instructions_html r) (bring_link r)"

text \<open>\<^verbatim>\<open>build_index\<close>: one link per record, in the order of the list.\<close>

definition index_link :: "recipe \<Rightarrow> string" where
  \<open>index_link r =
     ''          <li><a href="./'' @ escape (slug r) @ ''/">'' @ escape (name r) @ ''</a></li>''\<close>

definition index_html :: "recipe list \<Rightarrow> string" where
  "index_html recipes = INDEX_TEMPLATE (join [CHR 0x0A] (map index_link recipes))"

section \<open>The output tree\<close>

text \<open>
  The files and directories under the repository root, by their path from the root:
  \<open>[]\<close> is the root itself. The tree is idealised: no permissions, no links, no limit on
  names or space. A path is never a file and a directory at once.
\<close>

type_synonym path = "string list"

datatype node = Dir | File string

type_synonym fs = "path \<Rightarrow> node option"

definition DOCS_DIR :: path where
  "DOCS_DIR = [''docs'']"

text \<open>
  \<^verbatim>\<open>os.mkdir\<close>: the parent must be a directory and the path itself must not exist.
\<close>

definition os_mkdir :: "path \<Rightarrow> fs \<Rightarrow> error + fs" where
  "os_mkdir p fs =
     (if p = [] then Inl FileExistsError
      else case fs (butlast p) of
             None \<Rightarrow> Inl FileNotFoundError
           | Some (File c) \<Rightarrow> Inl NotADirectoryError
           | Some Dir \<Rightarrow>
               (case fs p of
                  Some n \<Rightarrow> Inl FileExistsError
                | None \<Rightarrow> Inr (fs(p \<mapsto> Dir))))"

text \<open>
  \<^verbatim>\<open>Path.mkdir(parents, exist_ok)\<close> as pathlib writes it: a missing parent is created
  first when \<open>parents\<close> is set, and any other failure is forgiven when \<open>exist_ok\<close> is set
  and the path is a directory.
\<close>

function mkdir :: "bool \<Rightarrow> bool \<Rightarrow> path \<Rightarrow> fs \<Rightarrow> error + fs" where
  "mkdir parents exist_ok p fs =
     (case os_mkdir p fs of
        Inr fs1 \<Rightarrow> Inr fs1
      | Inl FileNotFoundError \<Rightarrow>
          (if \<not> parents \<or> p = [] then Inl FileNotFoundError
           else case mkdir True True (butlast p) fs of
                  Inl e \<Rightarrow> Inl e
                | Inr fs1 \<Rightarrow>
                    (case os_mkdir p fs1 of
                       Inr fs2 \<Rightarrow> Inr fs2
                     | Inl FileNotFoundError \<Rightarrow> Inl FileNotFoundError
                     | Inl e \<Rightarrow> if \<not> exist_ok \<or> fs1 p \<noteq> Some Dir then Inl e else Inr fs1))
      | Inl e \<Rightarrow> if \<not> exist_ok \<or> fs p \<noteq> Some Dir then Inl e else Inr fs)"
  by pat_completeness auto
termination
  by (relation "measure (\<lambda>(parents, exist_ok, p, fs). length p)") auto

declare mkdir.simps [simp del]

text \<open>
  \<^verbatim>\<open>Path.write_text\<close> opens the file for writing: the parent must be a directory, the path
  must not be one, and an existing file is replaced.
\<close>

definition write_text :: "path \<Rightarrow> string \<Rightarrow> fs \<Rightarrow> error + fs" where
  "write_text p text fs =
     (if p = [] then Inl IsADirectoryError
      else case fs (butlast p) of
             None \<Rightarrow> Inl FileNotFoundError
           | Some (File c) \<Rightarrow> Inl NotADirectoryError
           | Some Dir \<Rightarrow>
               (case fs p of
                  Some Dir \<Rightarrow> Inl IsADirectoryError
                | _ \<Rightarrow> Inr (fs(p \<mapsto> File text))))"

section \<open>Writing the pages\<close>

text \<open>
  A slug that is one plain path component: then \<^verbatim>\<open>DOCS_DIR / slug\<close> is the directory of
  that name inside \<^verbatim>\<open>DOCS_DIR\<close>. Other slugs (empty, holding a slash or a zero byte, or one
  of the two dot names) are not followed.
\<close>

definition plain_name :: "string \<Rightarrow> bool" where
  "plain_name s =
     (s \<noteq> [] \<and> s \<noteq> ''.'' \<and> s \<noteq> ''..'' \<and> CHR ''/'' \<notin> set s \<and> CHR 0x00 \<notin> set s)"

definition out_dir :: "recipe \<Rightarrow> path" where
  "out_dir r = DOCS_DIR @ [slug r]"

definition page_path :: "string \<Rightarrow> path" where
  "page_path s = DOCS_DIR @ [s] @ [''index.html'']"

text \<open>
  The effect of \<^verbatim>\<open>build_recipe_page\<close> on the tree: the state it leaves, and the exception
  raised if any.
\<close>

definition build_recipe_page :: "recipe \<Rightarrow> fs \<Rightarrow> fs \<times> error option" where
  "build_recipe_page r fs =
     (if \<not> plain_name (slug r) then (fs, Some OutOfModel)
      else case mkdir True True (out_dir r) fs of
             Inl e \<Rightarrow> (fs, Some e)
           | Inr fs1 \<Rightarrow>
               (case write_text (out_dir r @ [''index.html'']) (page_html r) fs1 of
                  Inl e \<Rightarrow> (fs1, Some e)
                | Inr fs2 \<Rightarrow> (fs2, None)))"

definition build_index :: "recipe list \<Rightarrow> fs \<Rightarrow> fs \<times> error option" where
  "build_index recipes fs =
     (case write_text (DOCS_DIR @ [''index.html'']) (index_html recipes) fs of
        Inl e \<Rightarrow> (fs, Some e)
      | Inr fs1 \<Rightarrow> (fs1, None))"

text \<open>The loop of \<^verbatim>\<open>main\<close> over the loaded records; it stops at the first exception.\<close>

fun build_pages :: "json list \<Rightarrow> fs \<Rightarrow> fs \<times> error option" where
  "build_pages [] fs = (fs, None)"
| "build_pages (d # ds) fs =
     (case recipe_of d of
        None \<Rightarrow> (fs, Some OutOfModel)
      | Some r \<Rightarrow>
          (case build_recipe_page r fs of
             (fs1, Some e) \<Rightarrow> (fs1, Some e)
           | (fs1, None) \<Rightarrow> build_pages ds fs1))"

text \<open>
  \<^verbatim>\<open>main\<close>: the tree it leaves, and either the exception that ended the run or the number
  of recipes that the final message prints.
\<close>

definition main :: "recipe_file list \<Rightarrow> fs \<Rightarrow> fs \<times> (error + nat)" where
  "main files fs =
     (case load_recipes files of
        Inl e \<Rightarrow> (fs, Inl e)
      | Inr recipes \<Rightarrow>
          (case mkdir False True DOCS_DIR fs of
             Inl e \<Rightarrow> (fs, Inl e)
           | Inr fs1 \<Rightarrow>
               (case build_pages recipes fs1 of
                  (fs2, Some e) \<Rightarrow> (fs2, Inl e)
                | (fs2, None) \<Rightarrow>
                    (case those (map recipe_of recipes) of
                       None \<Rightarrow> (fs2, Inl OutOfModel)
                     | Some rs \<Rightarrow>
                         (case build_index rs fs2 of
                            (fs3, Some e) \<Rightarrow> (fs3, Inl e)
                          | (fs3, None) \<Rightarrow> (fs3, Inr (length recipes)))))))"

section \<open>Notions used to state the properties\<close>

text \<open>
  A loaded record has its four required fields and none of them is \<^verbatim>\<open>null\<close>.
\<close>

definition non_null_required :: "json \<Rightarrow> bool" where
  "non_null_required r =
     (case r of
        JObj d \<Rightarrow>
          list_all (\<lambda>k. case map_of d k of None \<Rightarrow> False | Some v \<Rightarrow> v \<noteq> JNull) required_keys
      | _ \<Rightarrow> False)"

text \<open>A record file whose name is \<^verbatim>\<open>null\<close>, and one that has no name at all.\<close>

definition null_name_record :: json where
  "null_name_record =
     JObj [(''slug'', JStr ''soup''), (''name'', JNull),
           (''ingredients'', JArr []), (''instructions'', JArr [])]"

definition nameless_fields :: "(string \<times> json) list" where
  "nameless_fields =
     [(''slug'', JStr ''soup''), (''ingredients'', JArr []), (''instructions'', JArr [])]"

text \<open>The tree before the first run: the repository root and nothing below it.\<close>

definition fresh_tree :: fs where
  "fresh_tree = Map.empty([] \<mapsto> Dir)"






text \<open>
  The texts of the \<^verbatim>\<open><li>\<close> elements of a piece of HTML, in the order they appear: what
  stands between each \<^verbatim>\<open><li>\<close> and the next \<^verbatim>\<open></li>\<close>.
\<close>

function li_outside :: "string \<Rightarrow> string list"
  and li_inside :: "string \<Rightarrow> string \<Rightarrow> string list" where
  "li_outside [] = []"
| "li_outside (c # s) =
     (if prefix ''<li>'' (c # s) then li_inside [] (drop 3 s) else li_outside s)"
| "li_inside acc [] = []"
| "li_inside acc (c # s) =
     (if prefix ''</li>'' (c # s) then acc # li_outside (drop 4 s) else li_inside (acc @ [c]) s)"
  by pat_completeness auto
termination
  by (relation "measure (\<lambda>x. case x of Inl s \<Rightarrow> length s | Inr (acc, s) \<Rightarrow> length s)") auto

definition list_items :: "string \<Rightarrow> string list" where
  "list_items html = li_outside html"

text \<open>
  Reading escaped text back: each of the five character references that \<^verbatim>\<open>html.escape\<close>
  writes becomes its character again.
\<close>

function unescape :: "string \<Rightarrow> string" where
  "unescape [] = []"
| "unescape (c # s) =
     (if prefix ''&amp;'' (c # s) then CHR ''&'' # unescape (drop 4 s)
      else if prefix ''&lt;'' (c # s) then CHR ''<'' # unescape (drop 3 s)
      else if prefix ''&gt;'' (c # s) then CHR ''>'' # unescape (drop 3 s)
      else if prefix ''&quot;'' (c # s) then CHR 0x22 # unescape (drop 5 s)
      else if prefix ''&#x27;'' (c # s) then CHR 0x27 # unescape (drop 5 s)
      else c # unescape s)"
  by pat_completeness auto
termination
  by (relation "measure length") auto

text \<open>A JSON value that holds \<^verbatim>\<open>null\<close> somewhere, at the top or nested.\<close>

fun contains_null :: "json \<Rightarrow> bool" where
  "contains_null JNull = True"
| "contains_null (JArr xs) = list_ex contains_null xs"
| "contains_null (JObj kvs) = list_ex (\<lambda>kv. contains_null (snd kv)) kvs"
| "contains_null v = False"

text \<open>Sample records: a soup with a yield and a picture, and a bare record.\<close>

definition soup :: recipe where
  "soup = \<lparr>slug = ''soup'', name = ''Suppe'', ingredients = [''1 Zwiebel'', ''Salz & Pfeffer''],
            instructions = [''Schneiden'', ''Kochen''], yield = Some ''4 Portionen'',
            time = None, image_file = Some ''soup.jpg''\<rparr>"

definition bare :: recipe where
  "bare = \<lparr>slug = ''bare'', name = ''Brot'', ingredients = [], instructions = [],
            yield = None, time = None, image_file = None\<rparr>"

text \<open>A record whose name is the closing tag of a script element.\<close>

definition closing_name :: recipe where
  "closing_name = \<lparr>slug = ''x'', name = ''</script>'', ingredients = [], instructions = [],
            yield = None, time = None, image_file = None\<rparr>"

text \<open>
  What a successful run writes. Building the page of a record makes its directory and its
  page file; the writes of a list of records are those of each record in turn, a later one
  replacing an earlier one at the same path. A record can be built on a tree when its slug
  is a plain name, its directory is not a file there and its page is not a directory there.
\<close>

definition index_path :: path where
  "index_path = DOCS_DIR @ [''index.html'']"

definition page_writes :: "recipe \<Rightarrow> fs" where
  "page_writes r = [out_dir r \<mapsto> Dir, page_path (slug r) \<mapsto> File (page_html r)]"

fun all_writes :: "recipe list \<Rightarrow> fs" where
  "all_writes [] = Map.empty"
| "all_writes (r # rs) = page_writes r ++ all_writes rs"

fun is_file :: "node option \<Rightarrow> bool" where
  "is_file (Some (File c)) = True"
| "is_file n = False"

definition page_ok :: "recipe \<Rightarrow> fs \<Rightarrow> bool" where
  "page_ok r fs =
     (plain_name (slug r) \<and> \<not> is_file (fs (out_dir r)) \<and> fs (page_path (slug r)) \<noteq> Some Dir)"

text \<open>Two recipe files with the same slug, and a third with its own.\<close>

definition soup_a :: json where
  "soup_a = JObj [(''slug'', JStr ''soup''), (''name'', JStr ''Suppe A''),
                  (''ingredients'', JArr [JStr ''Wasser'']), (''instructions'', JArr [])]"

definition soup_b :: json where
  "soup_b = JObj [(''slug'', JStr ''soup''), (''name'', JStr ''Suppe B''),
                  (''ingredients'', JArr []), (''instructions'', JArr [JStr ''Kochen'']),
                  (''yield'', JStr ''2 Portionen'')]"

definition bread :: json where
  "bread = JObj [(''slug'', JStr ''brot''), (''name'', JStr ''Brot''),
                 (''ingredients'', JArr []), (''instructions'', JArr []),
                 (''time'', JNull)]"

definition three_files :: "recipe_file list" where
  "three_files =
     [(''recipes/b-soup.json'', Some soup_b), (''recipes/a-soup.json'', Some soup_a),
      (''recipes/brot.json'', Some bread)]"

text \<open>The three files as records of the data model.\<close>

definition soup_a_rec :: recipe where
  "soup_a_rec = \<lparr>slug = ''soup'', name = ''Suppe A'', ingredients = [''Wasser''],
                  instructions = [], yield = None, time = None, image_file = None\<rparr>"

definition soup_b_rec :: recipe where
  "soup_b_rec = \<lparr>slug = ''soup'', name = ''Suppe B'', ingredients = [],
                  instructions = [''Kochen''], yield = Some ''2 Portionen'', time = None,
                  image_file = None\<rparr>"

definition bread_rec :: recipe where
  "bread_rec = \<lparr>slug = ''brot'', name = ''Brot'', ingredients = [], instructions = [],
                 yield = None, time = None, image_file = None\<rparr>"

text \<open>
  A line separator that \<^verbatim>\<open>json.dumps\<close> leaves as it is: U+0085 (bytes C2 85), U+2028 or
  U+2029 (bytes E2 80 A8 and E2 80 A9) somewhere in a string. The other line ends of
  \<^verbatim>\<open>splitlines\<close> are control characters below \<^verbatim>\<open>0x20\<close>, which \<^verbatim>\<open>json.dumps\<close> escapes. A record
  is clean when none of the strings that go into its structured data holds such a separator.
\<close>

fun has_separator :: "string \<Rightarrow> bool" where
  "has_separator [] = False"
| "has_separator (c # s) =
     ((c = CHR 0xC2 \<and> take 1 s = [CHR 0x85])
      \<or> (c = CHR 0xE2 \<and> (take 2 s = [CHR 0x80, CHR 0xA8] \<or> take 2 s = [CHR 0x80, CHR 0xA9]))
      \<or> has_separator s)"

definition clean_record :: "recipe \<Rightarrow> bool" where
  "clean_record r =
     (\<not> has_separator (name r)
      \<and> list_all (\<lambda>x. \<not> has_separator x) (ingredients r)
      \<and> list_all (\<lambda>x. \<not> has_separator x) (instructions r)
      \<and> (truthy (yield r) \<longrightarrow> \<not> has_separator (the (yield r)))
      \<and> (truthy (image_file r) \<longrightarrow> \<not> has_separator (the (image_file r))))"

text \<open>
  A JSON value none of whose strings, keys included, holds a line separator; the text of a
  number is ASCII.
\<close>

definition plain :: "string \<Rightarrow> bool" where
  "plain p =
     (\<forall>c\<in>set p. (c = CHR 0x0A \<or> 32 \<le> (of_char c :: nat)) \<and> (of_char c :: nat) < 128)"

fun json_ok :: "json \<Rightarrow> bool" where
  "json_ok JNull = True"
| "json_ok (JBool b) = True"
| "json_ok (JNum n) = (n \<noteq> [] \<and> plain n)"
| "json_ok (JStr s) = (\<not> has_separator s)"
| "json_ok (JArr xs) = list_all json_ok xs"
| "json_ok (JObj kvs) = list_all (\<lambda>kv. \<not> has_separator (fst kv) \<and> json_ok (snd kv)) kvs"

text \<open>
  A text is solid when it starts with an ASCII character, its only control character is the
  new line, and no line separator lies in it or across its end, whatever ASCII text follows.
\<close>

definition solid :: "string \<Rightarrow> bool" where
  "solid p =
     (p \<noteq> [] \<and> (of_char (hd p) :: nat) < 128
      \<and> (\<forall>c\<in>set p. c = CHR 0x0A \<or> 32 \<le> (of_char c :: nat))
      \<and> (\<forall>b. b = [] \<or> (of_char (hd b) :: nat) < 128
            \<longrightarrow> has_separator (p @ b) = has_separator b))"

text \<open>
  The text of the structured data, written out: an object whose entries are the context, the
  type tag \<^verbatim>\<open>Recipe\<close>, the name when it is not empty, the image URL when there is an image
  file, the yield when there is one, the ingredient strings and the steps, each step an object
  with the type tag \<^verbatim>\<open>HowToStep\<close> and its text. Entries and items are separated by a comma
  and a new line, and every nesting level is indented by two spaces more. \<open>ind\<close> is the
  indentation of the whole block: empty for the text \<^verbatim>\<open>json.dumps\<close> returns, two spaces for the
  text in the page.
\<close>

definition string_array :: "string \<Rightarrow> string list \<Rightarrow> string" where
  "string_array ind xs =
     (if xs = [] then ''[]''
      else ''['' @ [CHR 0x0A] @ ind @ ''    ''
           @ join ('','' @ [CHR 0x0A] @ ind @ ''    '') (map encode_basestring xs)
           @ [CHR 0x0A] @ ind @ ''  ]'')"

definition step_text :: "string \<Rightarrow> string \<Rightarrow> string" where
  \<open>step_text ind t =
     ''{'' @ [CHR 0x0A]
     @ ind @ ''      "@type": "HowToStep",'' @ [CHR 0x0A]
     @ ind @ ''      "text": '' @ encode_basestring t @ [CHR 0x0A]
     @ ind @ ''    }''\<close>

definition step_array :: "string \<Rightarrow> string list \<Rightarrow> string" where
  "step_array ind ts =
     (if ts = [] then ''[]''
      else ''['' @ [CHR 0x0A] @ ind @ ''    ''
           @ join ('','' @ [CHR 0x0A] @ ind @ ''    '') (map (step_text ind) ts)
           @ [CHR 0x0A] @ ind @ ''  ]'')"

definition structured_data_entries :: "string \<Rightarrow> recipe \<Rightarrow> string list" where
  \<open>structured_data_entries ind r =
     [''"@context": "https://schema.org"'', ''"@type": "Recipe"'']
     @ (if name r \<noteq> [] then [''"name": '' @ encode_basestring (name r)] else [])
     @ (if truthy (image_file r)
        then [''"image": ''
              @ encode_basestring (REPO_PAGES_BASE @ ''/assets/images/'' @ the (image_file r))]
        else [])
     @ (if truthy (yield r) then [''"recipeYield": '' @ encode_basestring (the (yield r))] else [])
     @ [''"recipeIngredient": '' @ string_array ind (ingredients r),
        ''"recipeInstructions": '' @ step_array ind (instructions r)]\<close>

definition structured_data_text :: "string \<Rightarrow> recipe \<Rightarrow> string" where
  "structured_data_text ind r =
     ind @ ''{'' @ [CHR 0x0A] @ ind @ ''  ''
     @ join ('','' @ [CHR 0x0A] @ ind @ ''  '') (structured_data_entries ind r)
     @ [CHR 0x0A] @ ind @ ''}''"

text \<open>A record whose image file name holds the line separator U+2028.\<close>

definition line_separator :: string where
  "line_separator = [CHR 0xE2, CHR 0x80, CHR 0xA8]"

definition separator_image :: recipe where
  "separator_image = \<lparr>slug = ''soup'', name = ''Suppe'', ingredients = [], instructions = [],
            yield = None, time = None, image_file = Some (''a'' @ line_separator @ ''b.jpg'')\<rparr>"

section \<open>Properties of the loader\<close>

lemma check_keys_None:
  "check_keys p data ks = None \<longleftrightarrow> (\<forall>k\<in>set ks. py_in k data = Inr True)"
  by (induction ks) (auto split: sum.splits bool.splits)

lemma check_keys_obj_Some:
  "check_keys p (JObj d) ks = Some e \<Longrightarrow>
     \<exists>k\<in>set ks. k \<notin> fst ` set d \<and> e = ValueError (missing_msg p k)"
  by (induction ks) (auto split: if_splits bool.splits)

lemma load_loop_Inr:
  "load_loop ps out = Inr rs \<Longrightarrow>
     map Some rs = map Some out @ map snd ps
     \<and> (\<forall>f\<in>set ps. \<exists>data. snd f = Some data \<and> check_keys (fst f) data required_keys = None)"
  by (induction ps out rule: load_loop.induct) (auto split: option.splits)

lemma load_loop_bad:
  assumes "(p, Some (JObj d)) \<in> set ps" and "k \<in> set required_keys" and "k \<notin> fst ` set d"
  shows "\<exists>e. load_loop ps out = Inl e"
proof (cases "load_loop ps out")
  case (Inl e)
  then show ?thesis by blast
next
  case (Inr rs)
  from load_loop_Inr[OF Inr] assms(1) have "check_keys p (JObj d) required_keys = None"
    by fastforce
  with assms(2) have "py_in k (JObj d) = Inr True"
    by (simp add: check_keys_None)
  with assms(3) show ?thesis by simp
qed

lemma load_loop_Inl_obj:
  "load_loop ps out = Inl e \<Longrightarrow> \<forall>f\<in>set ps. \<exists>d. snd f = Some (JObj d) \<Longrightarrow>
     \<exists>q d k. (q, Some (JObj d)) \<in> set ps \<and> k \<in> set required_keys \<and> k \<notin> fst ` set d
             \<and> e = ValueError (missing_msg q k)"
proof (induction ps out rule: load_loop.induct)
  case (1 out)
  then show ?case by simp
next
  case (2 p ps out)
  then show ?case by simp
next
  case (3 p data ps out)
  from 3(3) obtain d where d: "data = JObj d" by auto
  show ?case
  proof (cases "check_keys p data required_keys")
    case None
    with 3 have "\<exists>q d k. (q, Some (JObj d)) \<in> set ps \<and> k \<in> set required_keys
        \<and> k \<notin> fst ` set d \<and> e = ValueError (missing_msg q k)"
      by simp
    then show ?thesis by auto
  next
    case (Some e')
    with 3(2) have "e = e'" by simp
    with Some d check_keys_obj_Some[of p d required_keys e] show ?thesis by auto
  qed
qed

text \<open>
  C1. When some recipe file is a JSON object that lacks one of \<^verbatim>\<open>slug\<close>, \<^verbatim>\<open>name\<close>,
  \<^verbatim>\<open>ingredients\<close>, \<^verbatim>\<open>instructions\<close>, the run ends with an exception and leaves the
  output tree exactly as it found it: nothing is written. When every file is a JSON object,
  the exception is the \<^verbatim>\<open>ValueError\<close> whose message is the path of a file that lacks a
  required key, followed by \<^verbatim>\<open>: missing '\<close>, that key and a closing quote.
\<close>

theorem missing_key_aborts:
  assumes "(p, Some (JObj d)) \<in> set files" and "k \<in> set required_keys" and "k \<notin> fst ` set d"
  shows "\<exists>e. main files fs = (fs, Inl e)
           \<and> ((\<forall>f\<in>set files. \<exists>d'. snd f = Some (JObj d')) \<longrightarrow>
                (\<exists>q d' k'. (q, Some (JObj d')) \<in> set files \<and> k' \<in> set required_keys
                   \<and> k' \<notin> fst ` set d'
                   \<and> e = ValueError (q @ '': missing '' @ [CHR 0x27] @ k' @ [CHR 0x27])))"
proof -
  from assms have "(p, Some (JObj d)) \<in> set (sort_key fst files)" by simp
  from load_loop_bad[OF this assms(2,3)] obtain e where e: "load_recipes files = Inl e"
    by (auto simp: load_recipes_def)
  then have m: "main files fs = (fs, Inl e)" by (simp add: main_def)
  have "\<exists>q d' k'. (q, Some (JObj d')) \<in> set files \<and> k' \<in> set required_keys
                   \<and> k' \<notin> fst ` set d'
                   \<and> e = ValueError (q @ '': missing '' @ [CHR 0x27] @ k' @ [CHR 0x27])"
    if "\<forall>f\<in>set files. \<exists>d'. snd f = Some (JObj d')"
  proof -
    from that have "\<forall>f\<in>set (sort_key fst files). \<exists>d'. snd f = Some (JObj d')" by simp
    from load_loop_Inl_obj[OF e[unfolded load_recipes_def] this] show ?thesis
      by (simp add: missing_msg_def)
  qed
  with m show ?thesis by blast
qed

theorem missing_key_aborts_witness:
  "main [(''recipes/soup.json'', Some (JObj nameless_fields))] fresh_tree
     = (fresh_tree, Inl (ValueError (''recipes/soup.json: missing '' @ [CHR 0x27] @ ''name'' @ [CHR 0x27])))"
proof -
  let ?files = "[(''recipes/soup.json'', Some (JObj nameless_fields))]"
  have 1: "(''recipes/soup.json'', Some (JObj nameless_fields)) \<in> set ?files" by simp
  have 2: "''name'' \<in> set required_keys" by (simp add: required_keys_def)
  have 3: "''name'' \<notin> fst ` set nameless_fields" by (simp add: nameless_fields_def)
  have 4: "\<forall>f\<in>set ?files. \<exists>d'. snd f = Some (JObj d')" by simp
  from missing_key_aborts[OF 1 2 3, of fresh_tree] 4
  obtain q d' k' where m: "main ?files fresh_tree
        = (fresh_tree, Inl (ValueError (q @ '': missing '' @ [CHR 0x27] @ k' @ [CHR 0x27])))"
    and q: "(q, Some (JObj d')) \<in> set ?files" and k: "k' \<in> set required_keys"
    and n: "k' \<notin> fst ` set d'"
    by blast
  from q have "q = ''recipes/soup.json''" and "d' = nameless_fields" by simp_all
  moreover from this n k have "k' = ''name''"
    by (auto simp: required_keys_def nameless_fields_def)
  ultimately show ?thesis using m by simp
qed

text \<open>
  C7, as stated, fails: a file whose \<^verbatim>\<open>name\<close> is \<^verbatim>\<open>null\<close> loads, because the loader tests
  only that the key is there.
\<close>

theorem null_name_loads:
  "load_recipes [(''recipes/soup.json'', Some null_name_record)] = Inr [null_name_record]
   \<and> \<not> non_null_required null_name_record"
  by (simp add: load_recipes_def null_name_record_def non_null_required_def required_keys_def)

text \<open>
  C7, amended. After a successful load, every record of the returned list that is a JSON
  object has the four keys \<^verbatim>\<open>slug\<close>, \<^verbatim>\<open>name\<close>, \<^verbatim>\<open>ingredients\<close> and \<^verbatim>\<open>instructions\<close>; the
  value under a key may be anything, \<^verbatim>\<open>null\<close> included.
\<close>

theorem load_recipes_keys_present:
  assumes "load_recipes files = Inr rs" and "JObj d \<in> set rs" and "k \<in> set required_keys"
  shows "k \<in> fst ` set d"
proof -
  from assms(1) have *: "map Some rs = map snd (sort_key fst files)"
    and **: "\<forall>f\<in>set (sort_key fst files).
               \<exists>data. snd f = Some data \<and> check_keys (fst f) data required_keys = None"
    using load_loop_Inr[of "sort_key fst files" "[]" rs] by (simp_all add: load_recipes_def)
  from assms(2) have "Some (JObj d) \<in> set (map Some rs)" by simp
  with * obtain f where f: "f \<in> set (sort_key fst files)" "snd f = Some (JObj d)" by auto
  with ** have "check_keys (fst f) (JObj d) required_keys = None" by fastforce
  with assms(3) have "py_in k (JObj d) = Inr True" by (simp add: check_keys_None)
  then show ?thesis by simp
qed

theorem load_recipes_keys_present_witness:
  "load_recipes [(''recipes/soup.json'', Some null_name_record)] = Inr [null_name_record]
   \<and> ''name'' \<in> fst ` set [(''slug'', JStr ''soup''), (''name'', JNull),
           (''ingredients'', JArr []), (''instructions'', JArr [])]"
proof -
  have 1: "load_recipes [(''recipes/soup.json'', Some null_name_record)] = Inr [null_name_record]"
    by (simp add: load_recipes_def null_name_record_def required_keys_def)
  have 2: "JObj [(''slug'', JStr ''soup''), (''name'', JNull),
           (''ingredients'', JArr []), (''instructions'', JArr [])] \<in> set [null_name_record]"
    by (simp add: null_name_record_def)
  have 3: "''name'' \<in> set required_keys" by (simp add: required_keys_def)
  from load_recipes_keys_present[OF 1 2 3] 1 show ?thesis by simp
qed

section \<open>Properties of a rendered page\<close>

text \<open>Lines that follow one another in a template follow one another in its text.\<close>

lemma sublist_unlines: "sublist ms ls \<Longrightarrow> sublist (unlines ms) (unlines ls)"
proof -
  assume "sublist ms ls"
  then obtain ps ss where "ls = ps @ ms @ ss" by (auto simp: sublist_def)
  then have "unlines ls = unlines ps @ unlines ms @ unlines ss" by (simp add: unlines_def)
  then show ?thesis by (metis sublist_appendI)
qed

lemma page_lines_hero:
  \<open>sublist (unlines [''  </div>'', [], ''    '' @ hero_img r, [], ''    <section class="grid">''])
     (page_html r)\<close>
  unfolding page_html_def HTML_TEMPLATE_def
  by (rule sublist_unlines) (simp add: sublist_Cons_right)

lemma page_lines_meta:
  \<open>sublist (unlines [''    <div class="sub">'' @ escape (meta r) @ ''</div>'']) (page_html r)\<close>
  unfolding page_html_def HTML_TEMPLATE_def
  by (rule sublist_unlines) (simp add: sublist_Cons_right)

lemma page_lines_jsonld:
  \<open>sublist (unlines [''  <script type="application/ld+json">'', jsonld r, ''  </script>''])
     (page_html r)\<close>
  unfolding page_html_def HTML_TEMPLATE_def
  by (rule sublist_unlines) (simp add: sublist_Cons_right)

text \<open>
  C4. The metadata line is the plate sign and the yield, the stopwatch sign and the time,
  both joined by a bullet between two spaces, or the fixed text
  \<^verbatim>\<open>Bring!-Import kompatibel\<close> when there is neither; a field that is absent, \<^verbatim>\<open>null\<close> or
  the empty string counts as not there. With the yield \<^verbatim>\<open>4 Portionen\<close> and no time the line
  is the plate sign, a space and \<^verbatim>\<open>4 Portionen\<close>. The page shows the line, HTML-escaped,
  in its \<^verbatim>\<open>sub\<close> division.
\<close>

theorem meta_line:
  \<open>(truthy (yield r) \<and> truthy (time r) \<longrightarrow>
      meta r = plate @ '' '' @ the (yield r) @ '' '' @ bullet @ '' ''
               @ stopwatch @ '' '' @ the (time r))
   \<and> (truthy (yield r) \<and> \<not> truthy (time r) \<longrightarrow> meta r = plate @ '' '' @ the (yield r))
   \<and> (\<not> truthy (yield r) \<and> truthy (time r) \<longrightarrow> meta r = stopwatch @ '' '' @ the (time r))
   \<and> (\<not> truthy (yield r) \<and> \<not> truthy (time r) \<longrightarrow> meta r = ''Bring!-Import kompatibel'')
   \<and> (yield r = Some ''4 Portionen'' \<and> time r = None \<longrightarrow> meta r = plate @ '' 4 Portionen'')
   \<and> sublist (unlines [''    <div class="sub">'' @ escape (meta r) @ ''</div>'']) (page_html r)\<close>
  using page_lines_meta[of r] by (simp add: meta_def meta_parts_def)

theorem meta_line_witness:
  "meta soup = plate @ '' 4 Portionen''
   \<and> meta (soup\<lparr>time := Some ''30 min''\<rparr>)
       = plate @ '' 4 Portionen '' @ bullet @ '' '' @ stopwatch @ '' 30 min''
   \<and> meta (bare\<lparr>time := Some ''30 min''\<rparr>) = stopwatch @ '' 30 min''
   \<and> meta bare = ''Bring!-Import kompatibel''"
  using meta_line[of soup] meta_line[of "soup\<lparr>time := Some ''30 min''\<rparr>"]
    meta_line[of "bare\<lparr>time := Some ''30 min''\<rparr>"] meta_line[of bare]
  by (simp add: soup_def bare_def)

text \<open>
  The hero slot is the line of the page between the button row and the grid section. It holds
  the \<^verbatim>\<open>img\<close> element of a record with an image file name (present and not empty) and is
  empty for a record without one.
\<close>

lemma hero_slot:
  \<open>(image_file r = Some f \<and> f \<noteq> [] \<longrightarrow>
      hero_img r = ''<img class="hero" src="../assets/images/'' @ escape f
                   @ ''" alt="'' @ escape (name r) @ ''" />'')
   \<and> (image_file r = None \<or> image_file r = Some [] \<longrightarrow> hero_img r = [])
   \<and> sublist (unlines [''  </div>'', [], ''    '' @ hero_img r, [], ''    <section class="grid">''])
        (page_html r)\<close>
  using page_lines_hero[of r]
  by (auto simp: hero_img_def ASSETS_IMAGES_def)

lemma contains_null_strs: "\<not> list_ex contains_null (map JStr xs)"
  by (induction xs) auto

lemma contains_null_steps:
  "\<not> list_ex contains_null
       (map (\<lambda>t. JObj [(''@type'', JStr ''HowToStep''), (''text'', JStr t)]) xs)"
  by (induction xs) auto

text \<open>The structured-data object, entry by entry.\<close>

lemma jsonld_obj_eq:
  "jsonld_obj r =
     [(''@context'', JStr ''https://schema.org''), (''@type'', JStr ''Recipe'')]
     @ (if name r \<noteq> [] then [(''name'', JStr (name r))] else [])
     @ (if truthy (image_file r)
        then [(''image'',
                JStr (REPO_PAGES_BASE @ ''/'' @ ASSETS_IMAGES @ ''/'' @ the (image_file r)))]
        else [])
     @ (if truthy (yield r) then [(''recipeYield'', JStr (the (yield r)))] else [])
     @ [(''recipeIngredient'', JArr (map JStr (ingredients r))),
        (''recipeInstructions'',
           JArr (map (\<lambda>t. JObj [(''@type'', JStr ''HowToStep''), (''text'', JStr t)])
                  (instructions r)))]"
proof -
  have y: "opt_json (yield r) \<noteq> JNull \<and> opt_json (yield r) \<noteq> JStr []
           \<longleftrightarrow> truthy (yield r)"
    by (cases "yield r") auto
  have y': "truthy (yield r) \<Longrightarrow> opt_json (yield r) = JStr (the (yield r))"
    by (cases "yield r") auto
  show ?thesis
    unfolding jsonld_obj_def clean_none_def image_url_def
    using y y' by (simp add: REPO_PAGES_BASE_def)
qed

text \<open>
  C8 does not hold of the code. \<^verbatim>\<open>json.dumps\<close> leaves \<^verbatim>\<open><\<close> and \<^verbatim>\<open>/\<close> as they are and
  the text goes into the page unescaped: for a record named \<^verbatim>\<open></script>\<close> the text between
  the opening line of the script element and the closing line of the template holds a closing
  tag of its own.
\<close>

theorem closing_name_closes_script:
  \<open>sublist ''</script>'' (jsonld closing_name)
   \<and> sublist (unlines [''  <script type="application/ld+json">'', jsonld closing_name,
                        ''  </script>''])
        (page_html closing_name)\<close>
proof -
  have "sublist ''</script>'' (jsonld closing_name)"
    by code_simp
  with page_lines_jsonld[of closing_name] show ?thesis by simp
qed

section \<open>The import link\<close>






lemma of_char_div_16: "(of_char c :: nat) div 16 < 16"
  using nat_of_char_less_256[of c] by (simp add: less_mult_imp_div_less)










section \<open>The ingredient and instruction lists\<close>

lemma replace_char_append:
  "replace_char c rep (a @ b) = replace_char c rep a @ replace_char c rep b"
  by (simp add: replace_char_def)

lemma escape_append: "escape (a @ b) = escape a @ escape b"
  by (simp add: escape_def replace_char_append)

lemma escape_Nil: "escape [] = []"
  by (simp add: escape_def replace_char_def)

lemma escape_single:
  "escape [c] =
     (if c = CHR ''&'' then ''&amp;''
      else if c = CHR ''<'' then ''&lt;''
      else if c = CHR ''>'' then ''&gt;''
      else if c = CHR 0x22 then ''&quot;''
      else if c = CHR 0x27 then ''&#x27;''
      else [c])"
  by (simp add: escape_def replace_char_def)

lemma escape_Cons: "escape (c # s) = escape [c] @ escape s"
  using escape_append[of "[c]" s] by simp

lemma escape_no_markup:
  "CHR ''<'' \<notin> set (escape x) \<and> CHR ''>'' \<notin> set (escape x)
   \<and> CHR 0x22 \<notin> set (escape x) \<and> CHR 0x27 \<notin> set (escape x)"
proof (induction x)
  case Nil
  then show ?case by (simp add: escape_Nil)
next
  case (Cons c x)
  then show ?case by (subst (1 2 3 4) escape_Cons) (simp add: escape_single)
qed

lemma unescape_escape_single: "unescape (escape [c] @ t) = c # unescape t"
  by (simp add: escape_single)

lemma unescape_escape: "unescape (escape x) = x"
proof (induction x)
  case Nil
  then show ?case by (simp add: escape_Nil)
next
  case (Cons c x)
  have "unescape (escape (c # x)) = unescape (escape [c] @ escape x)"
    by (subst escape_Cons) simp
  also have "\<dots> = c # unescape (escape x)" by (rule unescape_escape_single)
  finally show ?case using Cons by simp
qed

lemma li_outside_skip: "CHR ''<'' \<notin> set pre \<Longrightarrow> li_outside (pre @ s) = li_outside s"
  by (induction pre) auto

lemma li_inside_read:
  "CHR ''<'' \<notin> set body \<Longrightarrow>
     li_inside acc (body @ ''</li>'' @ s) = (acc @ body) # li_outside s"
  by (induction body arbitrary: acc) auto

lemma li_outside_li: "li_outside (li x @ s) = escape x # li_outside s"
proof -
  have "li_outside (li x @ s)
          = li_outside (''            '' @ ''<li>'' @ escape x @ ''</li>'' @ s)"
    by (simp add: li_def)
  also have "\<dots> = li_outside (''<li>'' @ escape x @ ''</li>'' @ s)"
    by (rule li_outside_skip) simp
  also have "\<dots> = li_inside [] (escape x @ ''</li>'' @ s)" by simp
  also have "\<dots> = ([] @ escape x) # li_outside s"
    by (rule li_inside_read) (simp add: escape_no_markup)
  finally show ?thesis by simp
qed

lemma li_outside_join:
  "li_outside (join [CHR 0x0A] (map li xs) @ s) = map escape xs @ li_outside s"
proof (induction xs)
  case Nil
  then show ?case by simp
next
  case (Cons x xs)
  show ?case
  proof (cases xs)
    case Nil
    then show ?thesis by (simp add: li_outside_li)
  next
    case (Cons y ys)
    have "li_outside (join [CHR 0x0A] (map li (x # xs)) @ s)
            = li_outside (li x @ [CHR 0x0A] @ join [CHR 0x0A] (map li xs) @ s)"
      using Cons by simp
    also have "\<dots> = escape x # li_outside ([CHR 0x0A] @ join [CHR 0x0A] (map li xs) @ s)"
      by (rule li_outside_li)
    also have "li_outside ([CHR 0x0A] @ join [CHR 0x0A] (map li xs) @ s)
                 = li_outside (join [CHR 0x0A] (map li xs) @ s)"
      by (rule li_outside_skip) simp
    finally show ?thesis using Cons.IH by simp
  qed
qed

lemma list_items_join: "list_items (join [CHR 0x0A] (map li xs)) = map escape xs"
  using li_outside_join[of xs "[]"] by (simp add: list_items_def)

lemma page_lines_lists:
  \<open>sublist
     (unlines
       [''          <ul>'',
        ingredients_html r,
        ''          </ul>'',
        ''        </div>'',
        ''      </article>'',
        [],
        ''      <article class="card">'',
        ''        <div class="hd">'' @ cook @ '' Zubereitung</div>'',
        ''        <div class="bd">'',
        ''          <ol>'',
        instructions_html r,
        ''          </ol>''])
     (page_html r)\<close>
  unfolding page_html_def HTML_TEMPLATE_def
  by (rule sublist_unlines) (simp add: sublist_Cons_right)

text \<open>
  C3. The \<^verbatim>\<open><li>\<close> elements of the ingredient block are the HTML-escaped ingredients, one
  for each and in the order of the record, and those of the instruction block are the
  HTML-escaped instructions; reading the escaped texts back gives the record's own strings.
  Escaped text holds none of \<^verbatim>\<open><\<close>, \<^verbatim>\<open>>\<close> and the two quotation marks. The page has the
  ingredient block inside its \<^verbatim>\<open><ul>\<close> and, after it, the instruction block inside its
  \<^verbatim>\<open><ol>\<close>.
\<close>

theorem list_items_of_page:
  \<open>list_items (ingredients_html r) = map escape (ingredients r)
   \<and> list_items (instructions_html r) = map escape (instructions r)
   \<and> map unescape (list_items (ingredients_html r)) = ingredients r
   \<and> map unescape (list_items (instructions_html r)) = instructions r
   \<and> CHR ''<'' \<notin> set (escape x) \<and> CHR ''>'' \<notin> set (escape x)
   \<and> CHR 0x22 \<notin> set (escape x) \<and> CHR 0x27 \<notin> set (escape x)
   \<and> sublist
       (unlines
         [''          <ul>'',
          ingredients_html r,
          ''          </ul>'',
          ''        </div>'',
          ''      </article>'',
          [],
          ''      <article class="card">'',
          ''        <div class="hd">'' @ cook @ '' Zubereitung</div>'',
          ''        <div class="bd">'',
          ''          <ol>'',
          instructions_html r,
          ''          </ol>''])
       (page_html r)\<close>
proof -
  have "map unescape (map escape xs) = xs" for xs
    by (induction xs) (simp_all add: unescape_escape)
  then show ?thesis
    using page_lines_lists[of r] escape_no_markup[of x]
    by (simp add: ingredients_html_def instructions_html_def list_items_join)
qed

section \<open>The structured-data block\<close>

subsection \<open>Indenting the lines of a text\<close>

text \<open>
  In a text whose only line ends are new lines, \<^verbatim>\<open>splitlines\<close> followed by two spaces before
  every line and a join by new lines puts two spaces at the start and after every new line.
\<close>

lemma join_Cons: "xs \<noteq> [] \<Longrightarrow> join sep (x # xs) = x @ sep @ join sep xs"
  by (cases xs) simp_all

lemma splitlines_from_nonempty: "cur @ t \<noteq> [] \<Longrightarrow> splitlines_from cur t \<noteq> []"
proof (induction t arbitrary: cur)
  case Nil
  then show ?case by simp
next
  case (Cons c t)
  have "splitlines_from (cur @ [c]) t \<noteq> []" by (rule Cons.IH) simp
  then show ?case by (simp del: take_Suc_Cons)
qed


lemma splitlines_from_nl: "splitlines_from cur (CHR 0x0A # t) = cur # splitlines_from [] t"
  by simp

lemma splitlines_from_plain:
  assumes "32 \<le> (of_char c :: nat)" "\<not> has_separator (c # t)"
  shows "splitlines_from cur (c # t) = splitlines_from (cur @ [c]) t"
proof -
  have brk: "c \<noteq> CHR 0x0A" "c \<noteq> CHR 0x0D" "c \<noteq> CHR 0x0B" "c \<noteq> CHR 0x0C" "c \<noteq> CHR 0x1C"
      "c \<noteq> CHR 0x1D" "c \<noteq> CHR 0x1E"
    using assms(1) by auto
  have sep: "\<not> (c = CHR 0xC2 \<and> take 1 t = [CHR 0x85])"
      "\<not> (c = CHR 0xE2 \<and> (take 2 t = [CHR 0x80, CHR 0xA8] \<or> take 2 t = [CHR 0x80, CHR 0xA9]))"
    using assms(2) by simp_all
  show ?thesis
    by (subst splitlines_from.simps) (simp only: brk sep set_simps insert_iff empty_iff if_False simp_thms)
qed


lemma reindent_from:
  "\<forall>c\<in>set t. c = CHR 0x0A \<or> 32 \<le> (of_char c :: nat) \<Longrightarrow> \<not> has_separator t
   \<Longrightarrow> cur @ t \<noteq> [] \<Longrightarrow> (t \<noteq> [] \<longrightarrow> last t \<noteq> CHR 0x0A)
   \<Longrightarrow> join [CHR 0x0A] (map (\<lambda>line. ''  '' @ line) (splitlines_from cur t))
       = ''  '' @ cur @ replace_char (CHR 0x0A) (CHR 0x0A # ''  '') t"
proof (induction t arbitrary: cur)
  case Nil
  then show ?case by (simp add: replace_char_def)
next
  case (Cons c t)
  have sep: "\<not> has_separator t" using Cons.prems(2) by simp
  have set: "\<forall>c\<in>set t. c = CHR 0x0A \<or> 32 \<le> (of_char c :: nat)" using Cons.prems(1) by simp
  show ?case
  proof (cases "c = CHR 0x0A")
    case True
    have t: "t \<noteq> []" using Cons.prems(4) True by (cases t) simp_all
    then have l: "last t \<noteq> CHR 0x0A" using Cons.prems(4) by simp
    have ne: "map (\<lambda>line. ''  '' @ line) (splitlines_from [] t) \<noteq> []"
      using splitlines_from_nonempty[of "[]" t] t by simp
    have ih: "join [CHR 0x0A] (map (\<lambda>line. ''  '' @ line) (splitlines_from [] t))
       = ''  '' @ [] @ replace_char (CHR 0x0A) (CHR 0x0A # ''  '') t"
      using set sep t l by (intro Cons.IH) simp_all
    show ?thesis unfolding True splitlines_from_nl using ih ne
      by (simp add: join_Cons replace_char_def)
  next
    case False
    with Cons.prems(1) have c: "32 \<le> (of_char c :: nat)" by simp
    have l: "t \<noteq> [] \<longrightarrow> last t \<noteq> CHR 0x0A" using Cons.prems(4) by (cases t) simp_all
    have ih: "join [CHR 0x0A] (map (\<lambda>line. ''  '' @ line) (splitlines_from (cur @ [c]) t))
       = ''  '' @ (cur @ [c]) @ replace_char (CHR 0x0A) (CHR 0x0A # ''  '') t"
      using set sep l by (intro Cons.IH) simp_all
    show ?thesis unfolding splitlines_from_plain[OF c Cons.prems(2)] using False ih
      by (simp add: replace_char_def)
  qed
qed

subsection \<open>Line separators in serialised JSON\<close>

text \<open>
  \<^verbatim>\<open>json.dumps\<close> writes nothing below \<^verbatim>\<open>0x20\<close> but its own new lines, and it writes a line
  separator only where a string of the value holds one.
\<close>

lemma lower_hex_range: "n < 16 \<Longrightarrow> 32 \<le> (of_char (lower_hex n) :: nat) \<and> (of_char (lower_hex n) :: nat) < 128"
  by (simp add: lower_hex_def)

lemma escape_char_cases:
  "json_escape_char c = [c] \<and> 32 \<le> (of_char c :: nat)
   \<or> json_escape_char c \<noteq> [] \<and> (\<forall>x\<in>set (json_escape_char c). 32 \<le> (of_char x :: nat) \<and> (of_char x :: nat) < 128)"
  using lower_hex_range[of "of_char c div 16"] lower_hex_range[of "of_char c mod 16"] of_char_div_16[of c]
  by (simp add: json_escape_char_def)


lemma has_separator_low:
  "\<forall>c\<in>set a. (of_char c :: nat) < 128 \<Longrightarrow> has_separator (a @ b) = has_separator b"
proof (induction a)
  case Nil
  then show ?case by simp
next
  case (Cons c a)
  then have "(of_char c :: nat) < 128" by simp
  then have "c \<noteq> CHR 0xC2" "c \<noteq> CHR 0xE2" by auto
  with Cons show ?case by simp
qed

lemma take1_body:
  assumes "take 1 (concat (map json_escape_char s) @ b) = [x]" "128 \<le> (of_char x :: nat)"
    "b = [] \<or> (of_char (hd b) :: nat) < 128"
  shows "take 1 s = [x]"
proof (cases s)
  case Nil
  with assms show ?thesis by (cases b) auto
next
  case (Cons d s')
  from escape_char_cases[of d] show ?thesis
  proof
    assume "json_escape_char d = [d] \<and> 32 \<le> (of_char d :: nat)"
    with assms(1) Cons show ?thesis by simp
  next
    assume a: "json_escape_char d \<noteq> [] \<and> (\<forall>x\<in>set (json_escape_char d). 32 \<le> (of_char x :: nat) \<and> (of_char x :: nat) < 128)"
    then obtain y ys where y: "json_escape_char d = y # ys" by (cases "json_escape_char d") auto
    with a have "(of_char y :: nat) < 128" by simp
    moreover from assms(1) Cons y have "y = x" by simp
    ultimately show ?thesis using assms(2) by simp
  qed
qed

lemma take2_body:
  assumes "take 2 (concat (map json_escape_char s) @ b) = [x, y]" "128 \<le> (of_char x :: nat)"
    "128 \<le> (of_char y :: nat)" "b = [] \<or> (of_char (hd b) :: nat) < 128"
  shows "take 2 s = [x, y]"
proof (cases s)
  case Nil
  with assms show ?thesis by (cases b) auto
next
  case (Cons d s')
  from escape_char_cases[of d] show ?thesis
  proof
    assume e: "json_escape_char d = [d] \<and> 32 \<le> (of_char d :: nat)"
    with assms(1) Cons have d: "d = x" and t: "take 1 (concat (map json_escape_char s') @ b) = [y]"
      by (simp_all add: numeral_2_eq_2)
    from take1_body[OF t assms(3) assms(4)] d Cons show ?thesis by (simp add: numeral_2_eq_2)
  next
    assume a: "json_escape_char d \<noteq> [] \<and> (\<forall>x\<in>set (json_escape_char d). 32 \<le> (of_char x :: nat) \<and> (of_char x :: nat) < 128)"
    then obtain z zs where z: "json_escape_char d = z # zs" by (cases "json_escape_char d") auto
    with a have "(of_char z :: nat) < 128" by simp
    moreover from assms(1) Cons z have "z = x" by (simp add: numeral_2_eq_2)
    ultimately show ?thesis using assms(2) by simp
  qed
qed


lemma has_separator_body:
  assumes "b = [] \<or> (of_char (hd b) :: nat) < 128"
  shows "\<not> has_separator s
    \<Longrightarrow> has_separator (concat (map json_escape_char s) @ b) = has_separator b"
proof (induction s)
  case Nil
  then show ?case by simp
next
  case (Cons d s)
  let ?R = "concat (map json_escape_char s) @ b"
  from Cons have ih: "has_separator ?R = has_separator b" by simp
  from escape_char_cases[of d] show ?case
  proof
    assume e: "json_escape_char d = [d] \<and> 32 \<le> (of_char d :: nat)"
    have 1: "\<not> (d = CHR 0xC2 \<and> take 1 ?R = [CHR 0x85])"
    proof
      assume a: "d = CHR 0xC2 \<and> take 1 ?R = [CHR 0x85]"
      then have "take 1 s = [CHR 0x85]" using take1_body[of s b "CHR 0x85"] assms by simp
      with a Cons.prems show False by simp
    qed
    have 2: "\<not> (d = CHR 0xE2 \<and> take 2 ?R = [CHR 0x80, CHR 0xA8])"
    proof
      assume a: "d = CHR 0xE2 \<and> take 2 ?R = [CHR 0x80, CHR 0xA8]"
      then have "take 2 s = [CHR 0x80, CHR 0xA8]"
        using take2_body[of s b "CHR 0x80" "CHR 0xA8"] assms by simp
      with a Cons.prems show False by simp
    qed
    have 3: "\<not> (d = CHR 0xE2 \<and> take 2 ?R = [CHR 0x80, CHR 0xA9])"
    proof
      assume a: "d = CHR 0xE2 \<and> take 2 ?R = [CHR 0x80, CHR 0xA9]"
      then have "take 2 s = [CHR 0x80, CHR 0xA9]"
        using take2_body[of s b "CHR 0x80" "CHR 0xA9"] assms by simp
      with a Cons.prems show False by simp
    qed
    have "has_separator (d # ?R) = has_separator ?R"
      using 1 2 3 by (subst has_separator.simps) blast
    with e ih show ?thesis by simp
  next
    assume a: "json_escape_char d \<noteq> [] \<and> (\<forall>x\<in>set (json_escape_char d). 32 \<le> (of_char x :: nat) \<and> (of_char x :: nat) < 128)"
    then have "has_separator (json_escape_char d @ ?R) = has_separator ?R"
      by (intro has_separator_low) simp
    with ih show ?thesis by simp
  qed
qed

lemma solid_plain: "p \<noteq> [] \<Longrightarrow> plain p \<Longrightarrow> solid p"
proof -
  assume p: "p \<noteq> []" "plain p"
  then have low: "\<forall>c\<in>set p. (of_char c :: nat) < 128" by (simp add: plain_def)
  from p have "hd p \<in> set p" by simp
  with low have 1: "(of_char (hd p) :: nat) < 128" by blast
  from p have 2: "\<forall>c\<in>set p. c = CHR 0x0A \<or> 32 \<le> (of_char c :: nat)" by (simp add: plain_def)
  have 3: "\<forall>b. b = [] \<or> (of_char (hd b) :: nat) < 128
            \<longrightarrow> has_separator (p @ b) = has_separator b"
    using has_separator_low[OF low] by blast
  from p(1) 1 2 3 show ?thesis unfolding solid_def by blast
qed

lemma solid_append: "solid p \<Longrightarrow> solid q \<Longrightarrow> solid (p @ q)"
proof -
  assume p: "solid p" and q: "solid q"
  from p have p1: "p \<noteq> []" and p2: "(of_char (hd p) :: nat) < 128"
    and p3: "\<forall>c\<in>set p. c = CHR 0x0A \<or> 32 \<le> (of_char c :: nat)"
    and p4: "\<And>b. b = [] \<or> (of_char (hd b) :: nat) < 128
            \<Longrightarrow> has_separator (p @ b) = has_separator b"
    unfolding solid_def by blast+
  from q have q1: "q \<noteq> []" and q2: "(of_char (hd q) :: nat) < 128"
    and q3: "\<forall>c\<in>set q. c = CHR 0x0A \<or> 32 \<le> (of_char c :: nat)"
    and q4: "\<And>b. b = [] \<or> (of_char (hd b) :: nat) < 128
            \<Longrightarrow> has_separator (q @ b) = has_separator b"
    unfolding solid_def by blast+
  have 4: "has_separator ((p @ q) @ b) = has_separator b"
    if b: "b = [] \<or> (of_char (hd b) :: nat) < 128" for b
  proof -
    from q1 q2 have "(of_char (hd (q @ b)) :: nat) < 128" by simp
    then have "has_separator (p @ (q @ b)) = has_separator (q @ b)" by (intro p4) blast
    with q4[OF b] show ?thesis by simp
  qed
  from p1 have 1: "p @ q \<noteq> []" by simp
  from p1 p2 have 2: "(of_char (hd (p @ q)) :: nat) < 128" by simp
  from p3 q3 have 3: "\<forall>c\<in>set (p @ q). c = CHR 0x0A \<or> 32 \<le> (of_char c :: nat)" by auto
  from 1 2 3 4 show ?thesis unfolding solid_def by blast
qed

lemma body_range: "\<forall>c\<in>set (concat (map json_escape_char s)). 32 \<le> (of_char c :: nat)"
proof (induction s)
  case Nil
  then show ?case by simp
next
  case (Cons d s)
  from escape_char_cases[of d] have "\<forall>c\<in>set (json_escape_char d). 32 \<le> (of_char c :: nat)"
    by auto
  with Cons show ?case by auto
qed

lemma encode_basestring_range: "\<forall>c\<in>set (encode_basestring s). 32 \<le> (of_char c :: nat)"
  using body_range[of s] by (simp add: encode_basestring_def)

lemma solid_encode_basestring: "\<not> has_separator s \<Longrightarrow> solid (encode_basestring s)"
proof -
  assume s: "\<not> has_separator s"
  have "has_separator (encode_basestring s @ b) = has_separator b"
    if b: "b = [] \<or> (of_char (hd b) :: nat) < 128" for b
  proof -
    have "has_separator (concat (map json_escape_char s) @ (CHR 0x22 # b))
          = has_separator (CHR 0x22 # b)"
      using s by (intro has_separator_body) simp_all
    then show ?thesis by (simp add: encode_basestring_def)
  qed
  moreover have "encode_basestring s \<noteq> []" "(of_char (hd (encode_basestring s)) :: nat) < 128"
    by (simp_all add: encode_basestring_def)
  moreover have "\<forall>c\<in>set (encode_basestring s). c = CHR 0x0A \<or> 32 \<le> (of_char c :: nat)"
    using encode_basestring_range[of s] by blast
  ultimately show ?thesis unfolding solid_def by blast
qed

lemma solid_join:
  "xs \<noteq> [] \<Longrightarrow> solid sep \<Longrightarrow> \<forall>x\<in>set xs. solid x \<Longrightarrow> solid (join sep xs)"
proof (induction sep xs rule: join.induct)
  case (1 sep)
  then show ?case by simp
next
  case (2 sep x)
  then show ?case by simp
next
  case (3 sep x y ys)
  then have "solid (join sep (y # ys))" by simp
  with 3 show ?case by (simp add: solid_append)
qed

lemma plain_newline_indent: "plain (newline_indent lvl)"
  by (simp add: plain_def newline_indent_def)

lemma solid_newline_indent: "solid (newline_indent lvl)"
  by (rule solid_plain) (simp_all add: plain_newline_indent, simp add: newline_indent_def)

lemma solid_comma_newline: "solid ('','' @ newline_indent lvl)"
  by (rule solid_append[OF solid_plain solid_newline_indent]) (simp_all add: plain_def)

lemma solid_brackets:
  "solid x \<Longrightarrow> solid ([c] @ newline_indent l @ x @ newline_indent k @ [d])"
  if "32 \<le> (of_char c :: nat)" "(of_char c :: nat) < 128" "32 \<le> (of_char d :: nat)" "(of_char d :: nat) < 128"
proof -
  assume x: "solid x"
  have c: "solid [c]" "solid [d]" using that by (simp_all add: solid_plain plain_def)
  show ?thesis
    by (intro solid_append c x solid_newline_indent)
qed

lemma dumps_solid: "json_ok v \<Longrightarrow> solid (dumps lvl v)"
proof (induction v arbitrary: lvl)
  case JNull
  show ?case by (simp add: solid_plain plain_def)
next
  case (JBool b)
  show ?case by (simp add: solid_plain plain_def)
next
  case (JNum n)
  then show ?case by (simp add: solid_plain)
next
  case (JStr s)
  then show ?case by (simp add: solid_encode_basestring)
next
  case (JArr xs)
  show ?case
  proof (cases "xs = []")
    case True
    then show ?thesis by (simp add: solid_plain plain_def)
  next
    case False
    have "\<forall>x\<in>set (map (dumps (lvl + 1)) xs). solid x"
      using JArr by (auto simp: list_all_iff)
    then have "solid (join ('','' @ newline_indent (lvl + 1)) (map (dumps (lvl + 1)) xs))"
      using False by (intro solid_join solid_comma_newline) simp_all
    from solid_brackets[OF _ _ _ _ this, of "CHR ''[''" "CHR '']''" "lvl + 1" lvl] False
    show ?thesis by simp
  qed
next
  case (JObj kvs)
  show ?case
  proof (cases "kvs = []")
    case True
    then show ?thesis by (simp add: solid_plain plain_def)
  next
    case False
    have "solid (encode_basestring (fst kv) @ '': '' @ dumps (lvl + 1) (snd kv))"
      if kv: "kv \<in> set kvs" for kv
    proof -
      from kv JObj.prems have k: "\<not> has_separator (fst kv)" and v: "json_ok (snd kv)"
        by (auto simp: list_all_iff)
      have "snd kv \<in> Basic_BNFs.snds kv" by (cases kv) simp
      from JObj.IH[OF kv this v] have "solid (dumps (lvl + 1) (snd kv))" .
      moreover have "solid '': ''" by (simp add: solid_plain plain_def)
      ultimately show ?thesis using k by (intro solid_append solid_encode_basestring)
    qed
    then have "\<forall>x\<in>set (map (\<lambda>kv. encode_basestring (fst kv) @ '': '' @ dumps (lvl + 1) (snd kv)) kvs). solid x"
      by auto
    then have "solid (join ('','' @ newline_indent (lvl + 1))
        (map (\<lambda>kv. encode_basestring (fst kv) @ '': '' @ dumps (lvl + 1) (snd kv)) kvs))"
      using False by (intro solid_join solid_comma_newline) simp_all
    from solid_brackets[OF _ _ _ _ this, of "CHR ''{''" "CHR ''}''" "lvl + 1" lvl] False
    show ?thesis by simp
  qed
qed

lemma replace_char_id: "c \<notin> set s \<Longrightarrow> replace_char c rep s = s"
  by (induction s) (auto simp: replace_char_def)

lemma replace_char_join:
  "replace_char c rep (join sep xs) = join (replace_char c rep sep) (map (replace_char c rep) xs)"
  by (induction sep xs rule: join.induct) (simp_all add: replace_char_append, simp add: replace_char_def)

lemma replace_char_encode_basestring:
  "replace_char (CHR 0x0A) rep (encode_basestring s) = encode_basestring s"
proof (rule replace_char_id)
  show "CHR 0x0A \<notin> set (encode_basestring s)"
    using encode_basestring_range[of s] by auto
qed

lemma has_separator_ascii: "plain s \<Longrightarrow> \<not> has_separator s"
  using has_separator_low[of s "[]"] by (simp add: plain_def)

lemma json_ok_strs: "list_all (\<lambda>x. \<not> has_separator x) xs \<Longrightarrow> list_all json_ok (map JStr xs)"
  by (induction xs) simp_all

lemma json_ok_steps:
  "list_all (\<lambda>x. \<not> has_separator x) xs \<Longrightarrow>
   list_all json_ok (map (\<lambda>t. JObj [(''@type'', JStr ''HowToStep''), (''text'', JStr t)]) xs)"
  by (induction xs) simp_all

lemma has_separator_url:
  "\<not> has_separator f
   \<Longrightarrow> \<not> has_separator (REPO_PAGES_BASE @ CHR ''/'' # ASSETS_IMAGES @ CHR ''/'' # f)"
  by (simp add: REPO_PAGES_BASE_def ASSETS_IMAGES_def)

lemma json_ok_jsonld_obj: "clean_record r \<Longrightarrow> json_ok (JObj (jsonld_obj r))"
  unfolding jsonld_obj_eq clean_record_def
  by (simp add: json_ok_strs json_ok_steps has_separator_url del: has_separator.simps) simp

subsection \<open>The text of the structured data\<close>

lemma replace_char_Nil: "replace_char c rep [] = []"
  by (simp add: replace_char_def)

lemma replace_char_Cons:
  "replace_char c rep (x # s) = (if x = c then rep else [x]) @ replace_char c rep s"
  by (simp add: replace_char_def)

lemma encode_literals:
  \<open>encode_basestring ''@context'' = ''"@context"''\<close>
  \<open>encode_basestring ''@type'' = ''"@type"''\<close>
  \<open>encode_basestring ''name'' = ''"name"''\<close>
  \<open>encode_basestring ''image'' = ''"image"''\<close>
  \<open>encode_basestring ''recipeYield'' = ''"recipeYield"''\<close>
  \<open>encode_basestring ''recipeIngredient'' = ''"recipeIngredient"''\<close>
  \<open>encode_basestring ''recipeInstructions'' = ''"recipeInstructions"''\<close>
  \<open>encode_basestring ''text'' = ''"text"''\<close>
  \<open>encode_basestring ''https://schema.org'' = ''"https://schema.org"''\<close>
  \<open>encode_basestring ''Recipe'' = ''"Recipe"''\<close>
  \<open>encode_basestring ''HowToStep'' = ''"HowToStep"''\<close>
  by (simp_all add: encode_basestring_def json_escape_char_def)

lemma newline_indents:
  "newline_indent 0 = [CHR 0x0A]"
  "newline_indent (Suc 0) = CHR 0x0A # ''  ''"
  "newline_indent (Suc (Suc 0)) = CHR 0x0A # ''    ''"
  "newline_indent (Suc (Suc (Suc 0))) = CHR 0x0A # ''      ''"
  by (simp_all add: newline_indent_def numeral_eq_Suc)

text \<open>What \<^verbatim>\<open>json.dumps\<close> returns for the two lists and for the whole object.\<close>

lemma dumps_string_array: "dumps (Suc 0) (JArr (map JStr xs)) = string_array [] xs"
  by (simp add: string_array_def newline_indents o_def)

lemma dumps_step:
  "dumps (Suc (Suc 0)) (JObj [(''@type'', JStr ''HowToStep''), (''text'', JStr t)])
   = step_text [] t"
  by (simp add: step_text_def newline_indents encode_literals)

lemma dumps_step_array:
  "dumps (Suc 0) (JArr (map (\<lambda>t. JObj [(''@type'', JStr ''HowToStep''), (''text'', JStr t)]) ts))
   = step_array [] ts"
  by (simp add: step_array_def newline_indents o_def dumps_step del: dumps.simps(6))

text \<open>Two more spaces after every new line.\<close>

lemma indent_string_array:
  "replace_char (CHR 0x0A) (CHR 0x0A # ''  '') (string_array [] xs) = string_array ''  '' xs"
  by (simp add: string_array_def replace_char_append replace_char_join
      replace_char_encode_basestring replace_char_Cons replace_char_Nil o_def)

lemma indent_step:
  "replace_char (CHR 0x0A) (CHR 0x0A # ''  '') (step_text [] t) = step_text ''  '' t"
  by (simp add: step_text_def replace_char_append
      replace_char_encode_basestring replace_char_Cons replace_char_Nil)

lemma indent_step_array:
  "replace_char (CHR 0x0A) (CHR 0x0A # ''  '') (step_array [] ts) = step_array ''  '' ts"
  by (simp add: step_array_def replace_char_append replace_char_join
      replace_char_Cons replace_char_Nil o_def indent_step)

lemma dumps_object:
  "kvs \<noteq> [] \<Longrightarrow>
   dumps 0 (JObj kvs) =
     ''{'' @ newline_indent 1
     @ join ('','' @ newline_indent 1)
         (map (\<lambda>kv. encode_basestring (fst kv) @ '': '' @ dumps 1 (snd kv)) kvs)
     @ newline_indent 0 @ ''}''"
  by simp

lemma jsonld_obj_nonempty: "jsonld_obj r \<noteq> []"
  by (simp add: jsonld_obj_eq)

lemma dumps_jsonld_obj: "dumps 0 (JObj (jsonld_obj r)) = structured_data_text [] r"
  apply (subst dumps_object[OF jsonld_obj_nonempty])
  unfolding structured_data_text_def structured_data_entries_def jsonld_obj_eq
  by (simp add: newline_indents dumps_string_array dumps_step_array encode_literals
      ASSETS_IMAGES_def del: dumps.simps(5) dumps.simps(6))

lemma indent_structured_data_text:
  "''  '' @ replace_char (CHR 0x0A) (CHR 0x0A # ''  '') (structured_data_text [] r)
   = structured_data_text ''  '' r"
  unfolding structured_data_text_def structured_data_entries_def
  by (simp add: replace_char_append replace_char_join
      replace_char_encode_basestring replace_char_Cons replace_char_Nil o_def
      indent_string_array indent_step_array)

lemma solid_facts:
  assumes "solid p"
  shows "p \<noteq> []" "\<forall>c\<in>set p. c = CHR 0x0A \<or> 32 \<le> (of_char c :: nat)" "\<not> has_separator p"
proof -
  from assms show "p \<noteq> []" "\<forall>c\<in>set p. c = CHR 0x0A \<or> 32 \<le> (of_char c :: nat)"
    unfolding solid_def by blast+
  from assms have "has_separator (p @ []) = has_separator []" unfolding solid_def by blast
  then show "\<not> has_separator p" by simp
qed

lemma last_dumps_object: "kvs \<noteq> [] \<Longrightarrow> last (dumps 0 (JObj kvs)) = CHR ''}''"
  by (simp add: dumps_object)

lemma jsonld_text: "clean_record r \<Longrightarrow> jsonld r = structured_data_text ''  '' r"
proof -
  assume c: "clean_record r"
  let ?T = "dumps 0 (JObj (jsonld_obj r))"
  have s: "solid ?T" by (rule dumps_solid[OF json_ok_jsonld_obj[OF c]])
  have l: "last ?T \<noteq> CHR 0x0A" by (simp add: last_dumps_object[OF jsonld_obj_nonempty])
  have "join [CHR 0x0A] (map (\<lambda>line. ''  '' @ line) (splitlines_from [] ?T))
        = ''  '' @ [] @ replace_char (CHR 0x0A) (CHR 0x0A # ''  '') ?T"
    using solid_facts[OF s] l by (intro reindent_from) simp_all
  then have "jsonld r = ''  '' @ replace_char (CHR 0x0A) (CHR 0x0A # ''  '') ?T"
    by (simp add: jsonld_def splitlines_def del: dumps.simps)
  then show ?thesis
    unfolding dumps_jsonld_obj indent_structured_data_text .
qed

lemma soup_text:
  \<open>structured_data_text ''  '' soup =
     join [CHR 0x0A]
      [''  {'',
       ''    "@context": "https://schema.org",'',
       ''    "@type": "Recipe",'',
       ''    "name": "Suppe",'',
       ''    "image": "https://Sabsx.github.io/bring-recipes/assets/images/soup.jpg",'',
       ''    "recipeYield": "4 Portionen",'',
       ''    "recipeIngredient": ['',
       ''      "1 Zwiebel",'',
       ''      "Salz & Pfeffer"'',
       ''    ],'',
       ''    "recipeInstructions": ['',
       ''      {'',
       ''        "@type": "HowToStep",'',
       ''        "text": "Schneiden"'',
       ''      },'',
       ''      {'',
       ''        "@type": "HowToStep",'',
       ''        "text": "Kochen"'',
       ''      }'',
       ''    ]'',
       ''  }'']\<close>
  by (simp add: structured_data_text_def structured_data_entries_def string_array_def
      step_array_def step_text_def soup_def encode_basestring_def json_escape_char_def
      REPO_PAGES_BASE_def)

lemma bare_text:
  \<open>structured_data_text ''  '' bare =
     join [CHR 0x0A]
      [''  {'',
       ''    "@context": "https://schema.org",'',
       ''    "@type": "Recipe",'',
       ''    "name": "Brot",'',
       ''    "recipeIngredient": [],'',
       ''    "recipeInstructions": []'',
       ''  }'']\<close>
  by (simp add: structured_data_text_def structured_data_entries_def string_array_def
      step_array_def step_text_def bare_def encode_basestring_def json_escape_char_def)

lemma clean_samples: "clean_record soup" "clean_record bare"
  by (simp_all add: clean_record_def soup_def bare_def)

subsection \<open>The block of a page\<close>

text \<open>
  C5 does not hold of the code. For the record whose image file name is \<^verbatim>\<open>a\<close>, the line
  separator U+2028 and \<^verbatim>\<open>b.jpg\<close>, the structured-data object holds the image URL made of the
  base URL, \<^verbatim>\<open>/assets/images/\<close> and the file name, but the block of the page does not:
  \<^verbatim>\<open>json.dumps\<close> leaves the separator as it is, \<^verbatim>\<open>splitlines\<close> ends a line there, and the
  block holds the URL cut in two, its second part on a line of its own behind two spaces.
  The file name is nowhere in the block.
\<close>

theorem separator_cuts_image_url:
  \<open>image_file separator_image = Some (''a'' @ line_separator @ ''b.jpg'')
   \<and> map_of (jsonld_obj separator_image) ''image''
       = Some (JStr (REPO_PAGES_BASE @ ''/assets/images/'' @ ''a'' @ line_separator @ ''b.jpg''))
   \<and> jsonld separator_image =
       join [CHR 0x0A]
        [''  {'',
         ''    "@context": "https://schema.org",'',
         ''    "@type": "Recipe",'',
         ''    "name": "Suppe",'',
         ''    "image": "https://Sabsx.github.io/bring-recipes/assets/images/a'',
         ''  b.jpg",'',
         ''    "recipeIngredient": [],'',
         ''    "recipeInstructions": []'',
         ''  }'']
   \<and> \<not> sublist (''a'' @ line_separator @ ''b.jpg'') (jsonld separator_image)
   \<and> sublist (unlines [''  <script type="application/ld+json">'', jsonld separator_image,
                        ''  </script>''])
        (page_html separator_image)\<close>
proof -
  have 1: "image_file separator_image = Some (''a'' @ line_separator @ ''b.jpg'')"
    by (simp add: separator_image_def)
  have 2: "map_of (jsonld_obj separator_image) ''image''
       = Some (JStr (REPO_PAGES_BASE @ ''/assets/images/'' @ ''a'' @ line_separator @ ''b.jpg''))"
    by (simp add: jsonld_obj_eq separator_image_def ASSETS_IMAGES_def)
  have 3: \<open>jsonld separator_image =
       join [CHR 0x0A]
        [''  {'',
         ''    "@context": "https://schema.org",'',
         ''    "@type": "Recipe",'',
         ''    "name": "Suppe",'',
         ''    "image": "https://Sabsx.github.io/bring-recipes/assets/images/a'',
         ''  b.jpg",'',
         ''    "recipeIngredient": [],'',
         ''    "recipeInstructions": []'',
         ''  }'']\<close>
    by code_simp
  have 4: "\<not> sublist (''a'' @ line_separator @ ''b.jpg'') (jsonld separator_image)"
    by code_simp
  from 1 2 3 4 page_lines_jsonld[of separator_image] show ?thesis by blast
qed

text \<open>
  C6. No entry of the structured-data object holds \<^verbatim>\<open>null\<close> or the empty string, and
  \<^verbatim>\<open>null\<close> occurs nowhere inside it. A key whose value would be \<^verbatim>\<open>None\<close> or the empty string
  (\<^verbatim>\<open>recipeYield\<close>, \<^verbatim>\<open>image\<close>, an empty \<^verbatim>\<open>name\<close>) is left out; a name that is not empty,
  the ingredient list and the list of step objects are kept, the two lists also when they are
  empty. The text \<^verbatim>\<open>json.dumps\<close> returns for the object is the text of the structured data
  written out, which has an entry for each key that is kept and for no other and holds no
  \<^verbatim>\<open>null\<close>; the block of the page is made of the lines of that text, two spaces before each;
  for a clean record it is that text indented by two spaces. The block stands in the page
  between the opening and the closing line of the script element.
\<close>

theorem structured_data_block:
  \<open>(\<forall>kv\<in>set (jsonld_obj r). snd kv \<noteq> JNull \<and> snd kv \<noteq> JStr [])
   \<and> \<not> contains_null (JObj (jsonld_obj r))
   \<and> (name r \<noteq> [] \<longrightarrow> map_of (jsonld_obj r) ''name'' = Some (JStr (name r)))
   \<and> (name r = [] \<longrightarrow> map_of (jsonld_obj r) ''name'' = None)
   \<and> map_of (jsonld_obj r) ''recipeIngredient'' = Some (JArr (map JStr (ingredients r)))
   \<and> map_of (jsonld_obj r) ''recipeInstructions''
       = Some (JArr (map (\<lambda>t. JObj [(''@type'', JStr ''HowToStep''), (''text'', JStr t)])
                      (instructions r)))
   \<and> (truthy (yield r) \<longrightarrow> map_of (jsonld_obj r) ''recipeYield'' = Some (JStr (the (yield r))))
   \<and> (\<not> truthy (yield r) \<longrightarrow> map_of (jsonld_obj r) ''recipeYield'' = None)
   \<and> (\<not> truthy (image_file r) \<longrightarrow> map_of (jsonld_obj r) ''image'' = None)
   \<and> dumps 0 (JObj (jsonld_obj r)) = structured_data_text [] r
   \<and> jsonld r
       = join [CHR 0x0A] (map (\<lambda>line. ''  '' @ line) (splitlines (structured_data_text [] r)))
   \<and> (clean_record r \<longrightarrow> jsonld r = structured_data_text ''  '' r)
   \<and> sublist (unlines [''  <script type="application/ld+json">'', jsonld r, ''  </script>''])
        (page_html r)\<close>
proof -
  have 1: "\<forall>kv\<in>set (jsonld_obj r). snd kv \<noteq> JNull \<and> snd kv \<noteq> JStr []"
    by (simp add: jsonld_obj_def clean_none_def)
  have 2: "\<not> contains_null (JObj (jsonld_obj r))"
    by (simp add: jsonld_obj_eq contains_null_strs contains_null_steps)
  have 3: "name r \<noteq> [] \<longrightarrow> map_of (jsonld_obj r) ''name'' = Some (JStr (name r))"
    by (simp add: jsonld_obj_eq)
  have 4: "name r = [] \<longrightarrow> map_of (jsonld_obj r) ''name'' = None"
    by (simp add: jsonld_obj_eq)
  have 5: "map_of (jsonld_obj r) ''recipeIngredient'' = Some (JArr (map JStr (ingredients r)))"
    by (simp add: jsonld_obj_eq)
  have 6: "map_of (jsonld_obj r) ''recipeInstructions''
       = Some (JArr (map (\<lambda>t. JObj [(''@type'', JStr ''HowToStep''), (''text'', JStr t)])
                      (instructions r)))"
    by (simp add: jsonld_obj_eq)
  have 7: "truthy (yield r)
           \<longrightarrow> map_of (jsonld_obj r) ''recipeYield'' = Some (JStr (the (yield r)))"
    by (simp add: jsonld_obj_eq)
  have 8: "\<not> truthy (yield r) \<longrightarrow> map_of (jsonld_obj r) ''recipeYield'' = None"
    by (simp add: jsonld_obj_eq)
  have 9: "\<not> truthy (image_file r) \<longrightarrow> map_of (jsonld_obj r) ''image'' = None"
    by (simp add: jsonld_obj_eq)
  have 10: "dumps 0 (JObj (jsonld_obj r)) = structured_data_text [] r"
    by (rule dumps_jsonld_obj)
  have 11: "jsonld r
       = join [CHR 0x0A] (map (\<lambda>line. ''  '' @ line) (splitlines (structured_data_text [] r)))"
    unfolding jsonld_def dumps_jsonld_obj ..
  have 12: "clean_record r \<longrightarrow> jsonld r = structured_data_text ''  '' r"
    using jsonld_text[of r] by blast
  from 1 2 3 4 5 6 7 8 9 10 11 12 page_lines_jsonld[of r] show ?thesis by blast
qed

theorem structured_data_block_witness:
  \<open>jsonld soup =
     join [CHR 0x0A]
      [''  {'',
       ''    "@context": "https://schema.org",'',
       ''    "@type": "Recipe",'',
       ''    "name": "Suppe",'',
       ''    "image": "https://Sabsx.github.io/bring-recipes/assets/images/soup.jpg",'',
       ''    "recipeYield": "4 Portionen",'',
       ''    "recipeIngredient": ['',
       ''      "1 Zwiebel",'',
       ''      "Salz & Pfeffer"'',
       ''    ],'',
       ''    "recipeInstructions": ['',
       ''      {'',
       ''        "@type": "HowToStep",'',
       ''        "text": "Schneiden"'',
       ''      },'',
       ''      {'',
       ''        "@type": "HowToStep",'',
       ''        "text": "Kochen"'',
       ''      }'',
       ''    ]'',
       ''  }'']
   \<and> jsonld bare =
     join [CHR 0x0A]
      [''  {'',
       ''    "@context": "https://schema.org",'',
       ''    "@type": "Recipe",'',
       ''    "name": "Brot",'',
       ''    "recipeIngredient": [],'',
       ''    "recipeInstructions": []'',
       ''  }'']
   \<and> map_of (jsonld_obj soup) ''name'' = Some (JStr ''Suppe'')
   \<and> map_of (jsonld_obj soup) ''recipeYield'' = Some (JStr ''4 Portionen'')
   \<and> map_of (jsonld_obj bare) ''recipeYield'' = None
   \<and> map_of (jsonld_obj bare) ''image'' = None
   \<and> map_of (jsonld_obj (bare\<lparr>name := []\<rparr>)) ''name'' = None\<close>
proof -
  note s = structured_data_block[of soup]
  note b = structured_data_block[of bare]
  note n = structured_data_block[of "bare\<lparr>name := []\<rparr>"]
  from s clean_samples(1) have "jsonld soup = structured_data_text ''  '' soup" by blast
  then have 1: \<open>jsonld soup = join [CHR 0x0A]
      [''  {'',
       ''    "@context": "https://schema.org",'',
       ''    "@type": "Recipe",'',
       ''    "name": "Suppe",'',
       ''    "image": "https://Sabsx.github.io/bring-recipes/assets/images/soup.jpg",'',
       ''    "recipeYield": "4 Portionen",'',
       ''    "recipeIngredient": ['',
       ''      "1 Zwiebel",'',
       ''      "Salz & Pfeffer"'',
       ''    ],'',
       ''    "recipeInstructions": ['',
       ''      {'',
       ''        "@type": "HowToStep",'',
       ''        "text": "Schneiden"'',
       ''      },'',
       ''      {'',
       ''        "@type": "HowToStep",'',
       ''        "text": "Kochen"'',
       ''      }'',
       ''    ]'',
       ''  }'']\<close>
    unfolding soup_text .
  from b clean_samples(2) have "jsonld bare = structured_data_text ''  '' bare" by blast
  then have 2: \<open>jsonld bare = join [CHR 0x0A]
      [''  {'',
       ''    "@context": "https://schema.org",'',
       ''    "@type": "Recipe",'',
       ''    "name": "Brot",'',
       ''    "recipeIngredient": [],'',
       ''    "recipeInstructions": []'',
       ''  }'']\<close>
    unfolding bare_text .
  have sn: "name soup \<noteq> []" and sy: "truthy (yield soup)" "the (yield soup) = ''4 Portionen''"
    and sname: "name soup = ''Suppe''"
    by (simp_all add: soup_def)
  have by': "\<not> truthy (yield bare)" and bi: "\<not> truthy (image_file bare)"
    by (simp_all add: bare_def)
  have nn: "name (bare\<lparr>name := []\<rparr>) = []" by simp
  from s sn have "map_of (jsonld_obj soup) ''name'' = Some (JStr (name soup))" by blast
  with sname have 3: "map_of (jsonld_obj soup) ''name'' = Some (JStr ''Suppe'')" by simp
  from s sy(1) have "map_of (jsonld_obj soup) ''recipeYield'' = Some (JStr (the (yield soup)))"
    by blast
  with sy(2) have 4: "map_of (jsonld_obj soup) ''recipeYield'' = Some (JStr ''4 Portionen'')"
    by simp
  from b by' have 5: "map_of (jsonld_obj bare) ''recipeYield'' = None" by blast
  from b bi have 6: "map_of (jsonld_obj bare) ''image'' = None" by blast
  from n nn have 7: "map_of (jsonld_obj (bare\<lparr>name := []\<rparr>)) ''name'' = None" by blast
  from 1 2 3 4 5 6 7 show ?thesis by blast
qed

section \<open>Properties of a run\<close>

lemma mkdir_docs:
  "mkdir False True DOCS_DIR fs =
     (case fs [] of
        None \<Rightarrow> Inl FileNotFoundError
      | Some (File c) \<Rightarrow> if fs DOCS_DIR = Some Dir then Inr fs else Inl NotADirectoryError
      | Some Dir \<Rightarrow>
          (case fs DOCS_DIR of
             None \<Rightarrow> Inr (fs(DOCS_DIR \<mapsto> Dir))
           | Some Dir \<Rightarrow> Inr fs
           | Some (File c) \<Rightarrow> Inl FileExistsError))"
  by (subst mkdir.simps) (simp add: os_mkdir_def DOCS_DIR_def split: option.splits node.splits)

lemma mkdir_docs_Inr:
  assumes "mkdir False True DOCS_DIR fs = Inr fs1"
  shows "fs1 = fs(DOCS_DIR \<mapsto> Dir) \<and> fs [] \<noteq> None \<and> (fs [] = Some Dir \<or> fs DOCS_DIR = Some Dir)"
proof -
  have "f(x \<mapsto> y) = f" if "f x = Some y" for f :: fs and x y
    using that by (simp add: fun_upd_idem)
  with assms show ?thesis
    unfolding mkdir_docs by (auto split: option.splits node.splits if_splits)
qed

lemma mkdir_docs_again:
  assumes "fs [] \<noteq> None" and "fs DOCS_DIR = Some Dir"
  shows "mkdir False True DOCS_DIR fs = Inr fs"
  using assms unfolding mkdir_docs by (auto split: option.splits node.splits)

lemma mkdir_out_dir:
  "fs DOCS_DIR = Some Dir \<Longrightarrow>
   mkdir True True (out_dir r) fs =
     (if is_file (fs (out_dir r)) then Inl FileExistsError else Inr (fs(out_dir r \<mapsto> Dir)))"
proof -
  assume d: "fs DOCS_DIR = Some Dir"
  have i: "fs(out_dir r \<mapsto> Dir) = fs" if "fs (out_dir r) = Some Dir"
    using that by (simp add: fun_upd_idem)
  have f: "is_file (Some n) \<longleftrightarrow> n \<noteq> Dir" for n
    by (cases n) simp_all
  show ?thesis
    by (subst mkdir.simps)
      (use d i f in \<open>auto simp: os_mkdir_def out_dir_def split: option.splits node.splits\<close>)
qed

lemma write_text_page:
  "fs (out_dir r) = Some Dir \<Longrightarrow>
   write_text (out_dir r @ [''index.html'']) text fs =
     (if fs (page_path (slug r)) = Some Dir then Inl IsADirectoryError
      else Inr (fs(page_path (slug r) \<mapsto> File text)))"
  by (simp add: write_text_def out_dir_def page_path_def DOCS_DIR_def
      split: option.splits node.splits)

lemma add_page_writes:
  "fs ++ page_writes r = fs(out_dir r \<mapsto> Dir, page_path (slug r) \<mapsto> File (page_html r))"
  by (simp add: page_writes_def)

lemma out_dir_not_page: "out_dir r \<noteq> page_path s"
  by (simp add: out_dir_def page_path_def)

lemma build_recipe_page_eq:
  assumes "fs DOCS_DIR = Some Dir"
  shows "build_recipe_page r fs = (fs', None) \<longleftrightarrow> page_ok r fs \<and> fs' = fs ++ page_writes r"
proof (cases "plain_name (slug r) \<and> \<not> is_file (fs (out_dir r))")
  case False
  then show ?thesis
    using assms by (auto simp: build_recipe_page_def page_ok_def mkdir_out_dir)
next
  case True
  then have m: "mkdir True True (out_dir r) fs = Inr (fs(out_dir r \<mapsto> Dir))"
    using assms by (simp add: mkdir_out_dir)
  have w: "write_text (out_dir r @ [''index.html'']) (page_html r) (fs(out_dir r \<mapsto> Dir))
            = (if fs (page_path (slug r)) = Some Dir then Inl IsADirectoryError
               else Inr (fs(out_dir r \<mapsto> Dir, page_path (slug r) \<mapsto> File (page_html r))))"
    using write_text_page[of "fs(out_dir r \<mapsto> Dir)" r "page_html r"] out_dir_not_page[of r "slug r"]
    by (simp del: fun_upd_apply add: fun_upd_other fun_upd_same)
  show ?thesis
    using True by (auto simp: build_recipe_page_def page_ok_def m w add_page_writes)
qed

lemma docs_not_written: "DOCS_DIR \<noteq> out_dir r" "DOCS_DIR \<noteq> page_path s"
  "index_path \<noteq> page_path s" "DOCS_DIR \<noteq> index_path" "[] \<noteq> out_dir r" "[] \<noteq> page_path s"
  "[] \<noteq> index_path" "[] \<noteq> DOCS_DIR"
  by (simp_all add: out_dir_def page_path_def index_path_def DOCS_DIR_def)

lemma out_dir_eq: "out_dir q = out_dir r \<longleftrightarrow> slug q = slug r"
  by (simp add: out_dir_def)

lemma page_path_eq: "page_path s = page_path t \<longleftrightarrow> s = t"
  by (simp add: page_path_def)

lemma out_dir_index: "out_dir r = index_path \<longleftrightarrow> slug r = ''index.html''"
  by (simp add: out_dir_def index_path_def)

lemma page_writes_apply:
  "page_writes r p =
     (if p = page_path (slug r) then Some (File (page_html r))
      else if p = out_dir r then Some Dir else None)"
  by (simp add: page_writes_def)

lemma page_ok_add:
  assumes "page_ok r fs"
  shows "page_ok q (fs ++ page_writes r) \<longleftrightarrow> page_ok q fs"
proof (cases "slug q = slug r")
  case True
  then have "out_dir q = out_dir r" by (simp add: out_dir_def)
  with True assms out_dir_not_page[of r "slug r"] show ?thesis
    by (simp add: page_ok_def map_add_def page_writes_apply)
next
  case False
  then have "out_dir q \<noteq> out_dir r" "page_path (slug q) \<noteq> page_path (slug r)"
    by (simp_all add: out_dir_eq page_path_eq)
  with out_dir_not_page[of q "slug r"] out_dir_not_page[of r "slug q"] show ?thesis
    by (simp add: page_ok_def map_add_def page_writes_apply)
qed

lemma docs_add: "(fs ++ page_writes r) DOCS_DIR = fs DOCS_DIR"
  using docs_not_written(1,2) by (simp add: map_add_def page_writes_apply)

lemma build_pages_eq:
  "fs DOCS_DIR = Some Dir \<Longrightarrow>
   build_pages ds fs = (fs', None) \<longleftrightarrow>
     (\<exists>rs. those (map recipe_of ds) = Some rs \<and> (\<forall>r\<in>set rs. page_ok r fs)
           \<and> fs' = fs ++ all_writes rs)"
proof (induction ds arbitrary: fs)
  case Nil
  then show ?case by auto
next
  case (Cons d ds)
  show ?case
  proof (cases "recipe_of d")
    case None
    then show ?thesis by simp
  next
    case (Some r)
    show ?thesis
    proof (cases "page_ok r fs")
      case False
      then have "\<forall>g. build_recipe_page r fs \<noteq> (g, None)"
        using build_recipe_page_eq[where fs=fs, OF Cons.prems] by simp
      then have "build_pages (d # ds) fs \<noteq> (fs', None)"
        using Some by (auto split: prod.splits option.splits)
      moreover have "\<not> (\<exists>rs. those (map recipe_of (d # ds)) = Some rs \<and> (\<forall>r\<in>set rs. page_ok r fs)
           \<and> fs' = fs ++ all_writes rs)"
        using Some False by (auto split: option.splits)
      ultimately show ?thesis by blast
    next
      case True
      let ?g = "fs ++ page_writes r"
      have b: "build_recipe_page r fs = (?g, None)"
        using build_recipe_page_eq[where fs=fs, OF Cons.prems] True by simp
      have g: "?g DOCS_DIR = Some Dir" using Cons.prems by (simp add: docs_add)
      have "build_pages (d # ds) fs = (fs', None) \<longleftrightarrow> build_pages ds ?g = (fs', None)"
        using Some b by simp
      also have "\<dots> \<longleftrightarrow> (\<exists>rs. those (map recipe_of ds) = Some rs \<and> (\<forall>q\<in>set rs. page_ok q ?g)
           \<and> fs' = ?g ++ all_writes rs)"
        using Cons.IH[where fs="?g"] g by blast
      also have "\<dots> \<longleftrightarrow> (\<exists>rs. those (map recipe_of ds) = Some rs \<and> (\<forall>q\<in>set rs. page_ok q fs)
           \<and> fs' = fs ++ all_writes (r # rs))"
        by (simp add: page_ok_add[OF True])
      also have "\<dots> \<longleftrightarrow> (\<exists>rs. those (map recipe_of (d # ds)) = Some rs \<and> (\<forall>q\<in>set rs. page_ok q fs)
           \<and> fs' = fs ++ all_writes rs)"
        using Some True by (auto split: option.splits)
      finally show ?thesis .
    qed
  qed
qed

lemma all_writes_out_dir_Some: "all_writes rs (out_dir r) = Some n \<Longrightarrow> n = Dir"
proof (induction rs)
  case Nil
  then show ?case by simp
next
  case (Cons q rs)
  then show ?case
    using out_dir_not_page[of r "slug q"]
    by (auto simp: map_add_def page_writes_apply split: option.splits if_splits)
qed

lemma all_writes_out_dir: "r \<in> set rs \<Longrightarrow> all_writes rs (out_dir r) = Some Dir"
proof (induction rs)
  case Nil
  then show ?case by simp
next
  case (Cons q rs)
  show ?case
  proof (cases "all_writes rs (out_dir r)")
    case None
    with Cons have "r = q" by auto
    with None out_dir_not_page[of q "slug q"] show ?thesis
      by (simp add: map_add_def page_writes_apply)
  next
    case (Some n)
    with all_writes_out_dir_Some[OF Some] show ?thesis by (simp add: map_add_def)
  qed
qed

lemma all_writes_page:
  "all_writes rs (page_path s) =
     (case filter (\<lambda>q. slug q = s) rs of
        [] \<Rightarrow> None
      | q # qs \<Rightarrow> Some (File (page_html (last (q # qs)))))"
proof (induction rs)
  case Nil
  then show ?case by simp
next
  case (Cons r rs)
  then show ?case
    using out_dir_not_page[of r s]
    by (auto simp: map_add_def page_writes_apply page_path_eq split: option.splits list.splits)
qed

lemma all_writes_index:
  "all_writes rs index_path = (if \<exists>r\<in>set rs. slug r = ''index.html'' then Some Dir else None)"
proof (induction rs)
  case Nil
  then show ?case by simp
next
  case (Cons r rs)
  then show ?case
    using docs_not_written(3)[of "slug r"]
    by (auto simp: map_add_def page_writes_apply out_dir_index[symmetric] split: option.splits)
qed

lemma all_writes_docs: "all_writes rs DOCS_DIR = None" "all_writes rs [] = None"
  using docs_not_written by (induction rs) (auto simp: map_add_def page_writes_apply)

lemma page_ok_docs: "page_ok r (fs(DOCS_DIR \<mapsto> Dir)) = page_ok r fs"
  using docs_not_written(1)[of r] docs_not_written(2)[of "slug r"]
  by (simp add: page_ok_def)

lemma write_text_index:
  "fs DOCS_DIR = Some Dir \<Longrightarrow>
   write_text (DOCS_DIR @ [''index.html'']) text fs =
     (if fs index_path = Some Dir then Inl IsADirectoryError
      else Inr (fs(index_path \<mapsto> File text)))"
  by (simp add: write_text_def index_path_def split: option.splits node.splits)

lemma build_index_eq:
  "fs DOCS_DIR = Some Dir \<Longrightarrow>
   build_index rs fs = (fs', None) \<longleftrightarrow>
     fs index_path \<noteq> Some Dir \<and> fs' = fs(index_path \<mapsto> File (index_html rs))"
  by (auto simp: build_index_def write_text_index)

lemma pages_index:
  "(fs(DOCS_DIR \<mapsto> Dir) ++ all_writes rs) index_path \<noteq> Some Dir \<longleftrightarrow>
     fs index_path \<noteq> Some Dir \<and> (\<forall>r\<in>set rs. slug r \<noteq> ''index.html'')"
  using docs_not_written(4) by (auto simp: map_add_def all_writes_index)

lemma pages_docs: "(fs(DOCS_DIR \<mapsto> Dir) ++ all_writes rs) DOCS_DIR = Some Dir"
  by (simp add: map_add_def all_writes_docs)

text \<open>What a run that ends well has done, and when a run ends well.\<close>

lemma main_eq:
  "main files fs = (fs', Inr n) \<longleftrightarrow>
     (\<exists>ds rs. load_recipes files = Inr ds \<and> those (map recipe_of ds) = Some rs \<and> n = length ds
        \<and> mkdir False True DOCS_DIR fs = Inr (fs(DOCS_DIR \<mapsto> Dir))
        \<and> (\<forall>r\<in>set rs. page_ok r fs \<and> slug r \<noteq> ''index.html'')
        \<and> fs index_path \<noteq> Some Dir
        \<and> fs' = (fs(DOCS_DIR \<mapsto> Dir) ++ all_writes rs)(index_path \<mapsto> File (index_html rs)))"
  (is "?L \<longleftrightarrow> ?R")
proof (cases "load_recipes files")
  case (Inl e)
  then show ?thesis by (simp add: main_def)
next
  case (Inr ds)
  show ?thesis
  proof (cases "mkdir False True DOCS_DIR fs")
    case (Inl e)
    with Inr show ?thesis by (simp add: main_def)
  next
    case mk: (Inr fs1)
    let ?g = "fs(DOCS_DIR \<mapsto> Dir)"
    from mkdir_docs_Inr[OF mk] have fs1: "fs1 = ?g" by simp
    have gd: "?g DOCS_DIR = Some Dir" by simp
    note bp = build_pages_eq[where fs="?g", OF gd]
    show ?thesis
    proof (cases "\<exists>rs. those (map recipe_of ds) = Some rs \<and> (\<forall>r\<in>set rs. page_ok r fs)")
      case False
      then have "\<forall>g. build_pages ds ?g \<noteq> (g, None)"
        using bp by (auto simp: page_ok_docs)
      then have "\<not> ?L"
        using Inr mk fs1 by (auto simp: main_def split: prod.splits option.splits)
      moreover have "\<not> ?R" using Inr False by auto
      ultimately show ?thesis by blast
    next
      case True
      then obtain rs where rs: "those (map recipe_of ds) = Some rs"
        and ok: "\<forall>r\<in>set rs. page_ok r fs" by blast
      let ?h = "?g ++ all_writes rs"
      have b: "build_pages ds ?g = (?h, None)"
        using bp[where fs'="?h" and ds=ds] rs ok by (simp add: page_ok_docs)
      have hd: "?h DOCS_DIR = Some Dir" by (rule pages_docs)
      note bi = build_index_eq[where fs="?h", OF hd]
      show ?thesis
      proof (cases "fs index_path \<noteq> Some Dir \<and> (\<forall>r\<in>set rs. slug r \<noteq> ''index.html'')")
        case False
        then have "\<forall>g. build_index rs ?h \<noteq> (g, None)"
          using bi pages_index[of fs rs] by auto
        then have "\<not> ?L"
          using Inr mk fs1 b rs by (auto simp: main_def split: prod.splits option.splits)
        moreover have "\<not> ?R" using Inr rs False by auto
        ultimately show ?thesis by blast
      next
        case ix: True
        then have "build_index rs ?h = (?h(index_path \<mapsto> File (index_html rs)), None)"
          using bi pages_index[of fs rs] by auto
        then have "main files fs = (?h(index_path \<mapsto> File (index_html rs)), Inr (length ds))"
          using Inr mk fs1 b rs by (simp add: main_def)
        then show ?thesis using Inr mk fs1 rs ok ix by auto
      qed
    qed
  qed
qed

lemma map_add_twice: "(f ++ m) ++ m = f ++ m"
  by (simp add: map_add_def fun_eq_iff split: option.splits)

lemma three_files_load: "load_recipes three_files = Inr [soup_a, soup_b, bread]"
  by code_simp

lemma three_files_recipes:
  "those (map recipe_of [soup_a, soup_b, bread]) = Some [soup_a_rec, soup_b_rec, bread_rec]"
  by (simp add: soup_a_def soup_b_def bread_def soup_a_rec_def soup_b_rec_def bread_rec_def)

lemma three_files_ok:
  "\<forall>r\<in>set [soup_a_rec, soup_b_rec, bread_rec]. page_ok r fresh_tree \<and> slug r \<noteq> ''index.html''"
  by (simp add: page_ok_def plain_name_def soup_a_rec_def soup_b_rec_def bread_rec_def
      fresh_tree_def out_dir_def page_path_def DOCS_DIR_def)

lemma main_ok:
  assumes "load_recipes files = Inr ds" and "those (map recipe_of ds) = Some rs"
    and "fs [] = Some Dir" and "\<not> is_file (fs DOCS_DIR)" and "fs index_path \<noteq> Some Dir"
    and "\<forall>r\<in>set rs. page_ok r fs \<and> slug r \<noteq> ''index.html''"
  shows "main files fs
           = ((fs(DOCS_DIR \<mapsto> Dir) ++ all_writes rs)(index_path \<mapsto> File (index_html rs)),
              Inr (length ds))"
proof -
  have i: "fs(DOCS_DIR \<mapsto> Dir) = fs" if "fs DOCS_DIR = Some Dir"
    using that by (simp add: fun_upd_idem)
  have mk: "mkdir False True DOCS_DIR fs = Inr (fs(DOCS_DIR \<mapsto> Dir))"
    using assms(3,4) i unfolding mkdir_docs by (auto split: option.splits node.splits)
  show ?thesis
    unfolding main_eq using assms(1,2,5,6) mk by blast
qed

lemma three_files_main:
  "\<exists>fs'. main three_files fresh_tree = (fs', Inr 3)"
proof -
  have t: "fresh_tree [] = Some Dir" "\<not> is_file (fresh_tree DOCS_DIR)"
    "fresh_tree index_path \<noteq> Some Dir"
    by (simp_all add: fresh_tree_def DOCS_DIR_def index_path_def)
  from main_ok[OF three_files_load three_files_recipes t three_files_ok]
  show ?thesis by simp
qed

text \<open>
  C9. A second run on the same recipe files, started on the tree the first run left, ends
  the same way and leaves that tree exactly as it is: every file is written again with the
  same text. What a run writes is fixed by the loaded records alone: the tree it leaves is
  the tree it found with the output directory, one directory and one page per record, and
  the index page put over it.
\<close>

theorem build_twice:
  assumes "main files fs = (fs', Inr n)"
  shows "main files fs' = (fs', Inr n)
         \<and> (\<exists>ds rs. load_recipes files = Inr ds \<and> those (map recipe_of ds) = Some rs
               \<and> fs' = (fs(DOCS_DIR \<mapsto> Dir) ++ all_writes rs)
                          (index_path \<mapsto> File (index_html rs)))"
proof -
  from assms obtain ds rs where ld: "load_recipes files = Inr ds"
    and rs: "those (map recipe_of ds) = Some rs" and n: "n = length ds"
    and mk: "mkdir False True DOCS_DIR fs = Inr (fs(DOCS_DIR \<mapsto> Dir))"
    and ok: "\<forall>r\<in>set rs. page_ok r fs \<and> slug r \<noteq> ''index.html''"
    and ix: "fs index_path \<noteq> Some Dir"
    and fs': "fs' = (fs(DOCS_DIR \<mapsto> Dir) ++ all_writes rs)(index_path \<mapsto> File (index_html rs))"
    unfolding main_eq by blast
  let ?g = "fs(DOCS_DIR \<mapsto> Dir)"
  have aix: "all_writes rs index_path = None"
    using ok by (simp add: all_writes_index)
  have d: "fs' DOCS_DIR = Some Dir"
    using docs_not_written(4) by (simp add: fs' map_add_def all_writes_docs)
  have root: "fs' [] \<noteq> None"
    using mkdir_docs_Inr[OF mk] docs_not_written(7,8)
    by (simp add: fs' map_add_def all_writes_docs)
  have mk': "mkdir False True DOCS_DIR fs' = Inr (fs'(DOCS_DIR \<mapsto> Dir))"
    using mkdir_docs_again[OF root d] d by (simp add: fun_upd_idem)
  have same: "fs'(DOCS_DIR \<mapsto> Dir) = fs'" using d by (simp add: fun_upd_idem)
  have ok': "\<forall>r\<in>set rs. page_ok r fs' \<and> slug r \<noteq> ''index.html''"
  proof
    fix r assume r: "r \<in> set rs"
    with ok have p: "plain_name (slug r)" and i: "slug r \<noteq> ''index.html''"
      by (simp_all add: page_ok_def)
    from i have "out_dir r \<noteq> index_path" by (simp add: out_dir_index)
    then have o: "fs' (out_dir r) = Some Dir"
      using all_writes_out_dir[OF r] by (simp add: fs' map_add_def)
    from r have "filter (\<lambda>q. slug q = slug r) rs \<noteq> []" by (auto simp: filter_empty_conv)
    then have "\<exists>c. all_writes rs (page_path (slug r)) = Some (File c)"
      by (auto simp: all_writes_page split: list.splits)
    then have "fs' (page_path (slug r)) \<noteq> Some Dir"
      using docs_not_written(3)[of "slug r"] by (auto simp: fs' map_add_def)
    with p o i show "page_ok r fs' \<and> slug r \<noteq> ''index.html''"
      by (simp add: page_ok_def)
  qed
  have ix': "fs' index_path \<noteq> Some Dir" by (simp add: fs')
  have "(fs' ++ all_writes rs)(index_path \<mapsto> File (index_html rs)) = fs'"
  proof -
    have "(?g ++ all_writes rs)(index_path \<mapsto> File (index_html rs)) ++ all_writes rs
            = ((?g ++ all_writes rs) ++ all_writes rs)(index_path \<mapsto> File (index_html rs))"
      using aix by (auto simp: map_add_def fun_eq_iff split: option.splits)
    then show ?thesis by (simp add: fs' map_add_twice)
  qed
  then have "fs' = (fs'(DOCS_DIR \<mapsto> Dir) ++ all_writes rs)(index_path \<mapsto> File (index_html rs))"
    by (simp add: same)
  with ld rs n mk' ok' ix' have "main files fs' = (fs', Inr n)"
    unfolding main_eq[of files fs' fs' n] by blast
  with ld rs fs' show ?thesis by blast
qed

theorem build_twice_witness:
  "main three_files fresh_tree = (fst (main three_files fresh_tree), Inr 3)
   \<and> main three_files (fst (main three_files fresh_tree))
       = (fst (main three_files fresh_tree), Inr 3)"
proof -
  from three_files_main
  have h: "main three_files fresh_tree = (fst (main three_files fresh_tree), Inr 3)"
    by auto
  from build_twice[OF h] h show ?thesis by simp
qed

text \<open>
  C10. Records that share a slug raise no error: whenever the files load, every record has
  the types of the data model and a plain slug other than \<^verbatim>\<open>index.html\<close>, and nothing in the
  tree is in the way, the run ends well and reports every record, whether or not slugs
  collide. After it, the page of each record's slug holds the rendering of the last record
  with that slug, in the order of the loader, which is the order of the sorted file paths.
\<close>

theorem last_record_wins:
  assumes "load_recipes files = Inr ds" and "those (map recipe_of ds) = Some rs"
    and "fs [] = Some Dir" and "\<not> is_file (fs DOCS_DIR)" and "fs index_path \<noteq> Some Dir"
    and "\<forall>r\<in>set rs. page_ok r fs \<and> slug r \<noteq> ''index.html''"
    and "r \<in> set rs"
  shows "\<exists>fs'. main files fs = (fs', Inr (length ds))
           \<and> fs' (page_path (slug r))
               = Some (File (page_html (last (filter (\<lambda>q. slug q = slug r) rs))))
           \<and> map Some ds = map snd (sort_key fst files)"
proof -
  let ?fs' = "(fs(DOCS_DIR \<mapsto> Dir) ++ all_writes rs)(index_path \<mapsto> File (index_html rs))"
  have m: "main files fs = (?fs', Inr (length ds))"
    by (rule main_ok[OF assms(1-6)])
  from assms(7) obtain q qs where f: "filter (\<lambda>q. slug q = slug r) rs = q # qs"
    by (cases "filter (\<lambda>q. slug q = slug r) rs") (auto simp: filter_empty_conv)
  have "?fs' (page_path (slug r)) = Some (File (page_html (last (filter (\<lambda>q. slug q = slug r) rs))))"
    using docs_not_written(3)[of "slug r"] f
    by (simp add: map_add_def all_writes_page)
  moreover have "map Some ds = map snd (sort_key fst files)"
    using load_loop_Inr[of "sort_key fst files" "[]" ds] assms(1) by (simp add: load_recipes_def)
  ultimately show ?thesis using m by blast
qed

theorem last_record_wins_witness:
  "\<exists>fs'. main three_files fresh_tree = (fs', Inr 3)
         \<and> fs' (page_path ''soup'') = Some (File (page_html soup_b_rec))"
proof -
  have t: "fresh_tree [] = Some Dir" "\<not> is_file (fresh_tree DOCS_DIR)"
    "fresh_tree index_path \<noteq> Some Dir"
    by (simp_all add: fresh_tree_def DOCS_DIR_def index_path_def)
  have r: "soup_a_rec \<in> set [soup_a_rec, soup_b_rec, bread_rec]" by simp
  have s: "slug soup_a_rec = ''soup''" "slug soup_b_rec = ''soup''" "slug bread_rec = ''brot''"
    by (simp_all add: soup_a_rec_def soup_b_rec_def bread_rec_def)
  from last_record_wins[OF three_files_load three_files_recipes t three_files_ok r]
  obtain fs' where "main three_files fresh_tree = (fs', Inr (length [soup_a, soup_b, bread]))"
    and "fs' (page_path (slug soup_a_rec))
           = Some (File (page_html (last (filter (\<lambda>q. slug q = slug soup_a_rec)
                                           [soup_a_rec, soup_b_rec, bread_rec]))))"
    by blast
  then have "main three_files fresh_tree = (fs', Inr 3)
      \<and> fs' (page_path ''soup'') = Some (File (page_html soup_b_rec))"
    by (simp add: s)
  then show ?thesis by blast
qed

end
